theory Spec2Isabelle
  imports Main "HOL-Library.Char_ord" "HOL-Library.List_Lexorder" "HOL-Library.Word"
begin

section \<open>The world the tool runs in\<close>

text \<open>
  elasdx is a sequence of administrative calls against an Elasticsearch cluster. The
  cluster, the file system and the clock are outside the program; they are modelled as one
  explicit state, threaded through every function. Each client call is appended to
  \<open>log\<close> when it is issued, whether or not it succeeds, and may fail with any
  error: \<open>faults\<close> gives, for the number of calls issued so far, the error (if any)
  the next call meets. A failed call leaves the cluster unchanged. Progress lines printed
  to the terminal are not modelled.
\<close>

datatype error =
    EsError nat          \<comment> \<open>an error response of the cluster, with its HTTP status\<close>
  | IoError string       \<comment> \<open>a failure of the file system\<close>
  | Failure string       \<comment> \<open>any other failure of a call: the connection, a timeout\<close>
  | Wrap error string    \<comment> \<open>\<open>errors.Wrap(f)\<close> of a non-nil error\<close>

text \<open>\<open>elastic.IsNotFound\<close>: the error is a cluster response with status 404.\<close>

fun IsNotFound :: "error \<Rightarrow> bool" where
  "IsNotFound (EsError status) = (status = 404)"
| "IsNotFound _ = False"

text \<open>\<open>errors.Wrapf\<close> of pkg/errors returns nil when the error it is given is nil.\<close>

fun Wrapf :: "error option \<Rightarrow> string \<Rightarrow> error option" where
  "Wrapf None msg = None"
| "Wrapf (Some err) msg = Some (Wrap err msg)"

datatype json =
    JNull
  | JBool bool
  | JNumber int
  | JString string
  | JArray "json list"
  | JObject "(string \<times> json) list"

datatype call =
    C_NewClient
  | C_IndexPutTemplate string bool string      \<comment> \<open>template name, include_type_name, body\<close>
  | C_IndexExists string
  | C_CreateIndex string
  | C_IndexPutSettings string string           \<comment> \<open>index, body\<close>
  | C_Aliases string                           \<comment> \<open>look the alias up\<close>
  | C_Reindex string string string string      \<comment> \<open>source index, remote host, destination, version type\<close>
  | C_IndexGetTemplate string
  | C_AliasRemove string string                \<comment> \<open>index, alias\<close>
  | C_AliasAdd string string                   \<comment> \<open>index, alias\<close>
  | C_IndexNames
  | C_DeleteIndex string

record time =
  year :: nat
  month :: nat
  day :: nat
  hour :: nat
  minute :: nat
  second :: nat

record world =
  files :: "string \<rightharpoonup> string"                  \<comment> \<open>readable files: path to content\<close>
  dirs :: "string \<rightharpoonup> (string \<times> bool) list"      \<comment> \<open>directories: entries as (name, is a directory)\<close>
  clock :: "nat \<Rightarrow> time"                         \<comment> \<open>local time once so many calls were issued\<close>
  decode_settings :: "string \<Rightarrow> (string \<times> json) list"
                                                \<comment> \<open>the settings object the cluster reports for a template body\<close>
  templates :: "string \<rightharpoonup> string"              \<comment> \<open>template store: name to body\<close>
  indices :: "string list"
  aliases :: "(string \<times> string) list"           \<comment> \<open>(index, alias) associations\<close>
  faults :: "nat \<Rightarrow> error option"
  log :: "call list"

text \<open>
  What a Go function does besides returning: it may panic, or leave the process with an
  exit status, having told the user why.
\<close>

datatype 'a outcome = Returns 'a | Panics | Exits nat string

section \<open>The client\<close>

definition issue :: "call \<Rightarrow> world \<Rightarrow> error option \<times> world" where
  "issue c w = (faults w (length (log w)), w\<lparr>log := log w @ [c]\<rparr>)"

definition IndexPutTemplate :: "string \<Rightarrow> bool \<Rightarrow> string \<Rightarrow> world \<Rightarrow> (error + unit) \<times> world" where
  "IndexPutTemplate name includeTypeName body w =
     (case issue (C_IndexPutTemplate name includeTypeName body) w of
        (Some err, w') \<Rightarrow> (Inl err, w')
      | (None, w') \<Rightarrow> (Inr (), w'\<lparr>templates := (templates w')(name \<mapsto> body)\<rparr>))"

definition IndexExists :: "string \<Rightarrow> world \<Rightarrow> (error + bool) \<times> world" where
  "IndexExists name w =
     (case issue (C_IndexExists name) w of
        (Some err, w') \<Rightarrow> (Inl err, w')
      | (None, w') \<Rightarrow> (Inr (name \<in> set (indices w')), w'))"

definition CreateIndex :: "string \<Rightarrow> world \<Rightarrow> (error + unit) \<times> world" where
  "CreateIndex name w =
     (case issue (C_CreateIndex name) w of
        (Some err, w') \<Rightarrow> (Inl err, w')
      | (None, w') \<Rightarrow> (Inr (), w'\<lparr>indices := indices w' @ [name]\<rparr>))"

definition IndexPutSettings :: "string \<Rightarrow> string \<Rightarrow> world \<Rightarrow> (error + unit) \<times> world" where
  "IndexPutSettings name body w =
     (case issue (C_IndexPutSettings name body) w of
        (Some err, w') \<Rightarrow> (Inl err, w')
      | (None, w') \<Rightarrow> (Inr (), w'))"

text \<open>\<open>AliasesResult.IndicesByAlias\<close>: the indices the alias is associated with.\<close>

definition IndicesByAlias :: "world \<Rightarrow> string \<Rightarrow> string list" where
  "IndicesByAlias w alias = map fst (filter (\<lambda>(i, a). a = alias) (aliases w))"

text \<open>
  Looking an alias up answers 404 when no index carries it; otherwise the reply lists
  the indices that do.
\<close>

definition Aliases :: "string \<Rightarrow> world \<Rightarrow> (error + string list) \<times> world" where
  "Aliases alias w =
     (case issue (C_Aliases alias) w of
        (Some err, w') \<Rightarrow> (Inl err, w')
      | (None, w') \<Rightarrow>
          (if IndicesByAlias w' alias = [] then (Inl (EsError 404), w')
           else (Inr (IndicesByAlias w' alias), w')))"

definition Reindex :: "string \<Rightarrow> string \<Rightarrow> string \<Rightarrow> string \<Rightarrow> world \<Rightarrow> (error + unit) \<times> world" where
  "Reindex src remote dst versionType w =
     (case issue (C_Reindex src remote dst versionType) w of
        (Some err, w') \<Rightarrow> (Inl err, w')
      | (None, w') \<Rightarrow> (Inr (), w'))"

text \<open>
  Fetching a template answers 404 when there is none of that name; otherwise the reply
  maps the name to the template, of which the program reads the settings object.
\<close>

definition IndexGetTemplate :: "string \<Rightarrow> world \<Rightarrow> (error + (string \<rightharpoonup> (string \<times> json) list)) \<times> world" where
  "IndexGetTemplate name w =
     (case issue (C_IndexGetTemplate name) w of
        (Some err, w') \<Rightarrow> (Inl err, w')
      | (None, w') \<Rightarrow>
          (case templates w' name of
             None \<Rightarrow> (Inl (EsError 404), w')
           | Some body \<Rightarrow> (Inr [name \<mapsto> decode_settings w' body], w')))"

definition AliasRemove :: "string \<Rightarrow> string \<Rightarrow> world \<Rightarrow> (error + unit) \<times> world" where
  "AliasRemove index alias w =
     (case issue (C_AliasRemove index alias) w of
        (Some err, w') \<Rightarrow> (Inl err, w')
      | (None, w') \<Rightarrow> (Inr (), w'\<lparr>aliases := removeAll (index, alias) (aliases w')\<rparr>))"

definition AliasAdd :: "string \<Rightarrow> string \<Rightarrow> world \<Rightarrow> (error + unit) \<times> world" where
  "AliasAdd index alias w =
     (case issue (C_AliasAdd index alias) w of
        (Some err, w') \<Rightarrow> (Inl err, w')
      | (None, w') \<Rightarrow>
          (Inr (), w'\<lparr>aliases := removeAll (index, alias) (aliases w') @ [(index, alias)]\<rparr>))"

definition IndexNames :: "world \<Rightarrow> (error + string list) \<times> world" where
  "IndexNames w =
     (case issue C_IndexNames w of
        (Some err, w') \<Rightarrow> (Inl err, w')
      | (None, w') \<Rightarrow> (Inr (indices w'), w'))"

definition DeleteIndex :: "string \<Rightarrow> world \<Rightarrow> (error + unit) \<times> world" where
  "DeleteIndex name w =
     (case issue (C_DeleteIndex name) w of
        (Some err, w') \<Rightarrow> (Inl err, w')
      | (None, w') \<Rightarrow>
          (Inr (), w'\<lparr>indices := removeAll name (indices w'),
                      aliases := filter (\<lambda>(i, a). i \<noteq> name) (aliases w')\<rparr>))"

section \<open>Strings, paths and the timestamp\<close>

definition HasPrefix :: "string \<Rightarrow> string \<Rightarrow> bool" where
  "HasPrefix s p \<longleftrightarrow> length p \<le> length s \<and> take (length p) s = p"

definition HasSuffix :: "string \<Rightarrow> string \<Rightarrow> bool" where
  "HasSuffix s suffix \<longleftrightarrow> length suffix \<le> length s \<and> drop (length s - length suffix) s = suffix"

definition TrimSuffix :: "string \<Rightarrow> string \<Rightarrow> string" where
  "TrimSuffix s suffix = (if HasSuffix s suffix then take (length s - length suffix) s else s)"

text \<open>\<open>filepath.Split\<close>: the path is cut right after its last slash.\<close>

definition Split :: "string \<Rightarrow> string \<times> string" where
  "Split path =
     (let file = rev (takeWhile (\<lambda>c. c \<noteq> CHR ''/'') (rev path))
      in (take (length path - length file) path, file))"

text \<open>
  \<open>strings.ReplaceAll\<close> for a non-empty \<open>old\<close>: non-overlapping occurrences are
  replaced from the left. (With an empty \<open>old\<close> Go inserts \<open>new\<close> around every
  character; the program never does that, and the model leaves the string as it is.)
\<close>

function ReplaceAll :: "string \<Rightarrow> string \<Rightarrow> string \<Rightarrow> string" where
  "ReplaceAll s old new =
     (if s = [] \<or> old = [] then s
      else if HasPrefix s old then new @ ReplaceAll (drop (length old) s) old new
      else hd s # ReplaceAll (tl s) old new)"
  by pat_completeness auto
termination
  by (relation "measure (\<lambda>(s, old, new). length s)") auto

definition digit :: "nat \<Rightarrow> char" where
  "digit d = char_of (48 + d)"

fun digits :: "nat \<Rightarrow> string" where
  "digits n = (if n < 10 then [digit n] else digits (n div 10) @ [digit (n mod 10)])"

text \<open>Go's \<open>appendInt\<close>: decimal, padded with zeros on the left to the given width.\<close>

definition appendInt :: "nat \<Rightarrow> nat \<Rightarrow> string" where
  "appendInt n width = replicate (width - length (digits n)) CHR ''0'' @ digits n"

text \<open>\<open>t.Format("2006-01-02-15:04:05")\<close>\<close>

definition Format :: "time \<Rightarrow> string" where
  "Format t =
     appendInt (year t) 4 @ ''-'' @ appendInt (month t) 2 @ ''-'' @ appendInt (day t) 2 @ ''-'' @
     appendInt (hour t) 2 @ '':'' @ appendInt (minute t) 2 @ '':'' @ appendInt (second t) 2"

definition Now :: "world \<Rightarrow> time" where
  "Now w = clock w (length (log w))"

definition ReadFile :: "world \<Rightarrow> string \<Rightarrow> error + string" where
  "ReadFile w path =
     (case files w path of
        None \<Rightarrow> Inl (IoError path)
      | Some bytes \<Rightarrow> Inr bytes)"

section \<open>Template-and-index provisioner\<close>

text \<open>The settings bodies are the program's literals, white space included.\<close>

abbreviation nl :: string where "nl \<equiv> [CHR 0x0A]"
abbreviation tab :: string where "tab \<equiv> [CHR 0x09]"

definition quote :: "string \<Rightarrow> string" where
  "quote s = [CHR 0x22] @ s @ [CHR 0x22]"

definition indexingSettings :: string where
  "indexingSettings =
     ''{'' @ nl @
     tab @ tab @ tab @ quote ''index'' @ '' : {'' @ nl @
     tab @ tab @ tab @ tab @ quote ''refresh_interval'' @ '' : '' @ quote ''-1'' @ '','' @ nl @
     tab @ tab @ tab @ tab @ quote ''number_of_replicas'' @ '': '' @ quote ''0'' @ nl @
     tab @ tab @ tab @ ''}'' @ nl @
     tab @ tab @ ''}'' @ nl @
     tab @ tab"

text \<open>Lines 52 to 59: the name of the destination index.\<close>

definition newIndexName_of :: "string \<Rightarrow> time \<Rightarrow> string \<Rightarrow> string \<Rightarrow> string" where
  "newIndexName_of index now newIndexName extraSuffix =
     (let dateSuffix = ReplaceAll (Format now) '':'' ''-''
      in if newIndexName = [] then
           (let dateSuffix = (if extraSuffix \<noteq> [] then dateSuffix @ ''-'' @ extraSuffix else dateSuffix)
            in index @ ''-'' @ dateSuffix)
         else newIndexName)"

definition UpdateTemplateAndCreateNewIndex ::
  "world \<Rightarrow> string \<Rightarrow> string \<Rightarrow> bool \<Rightarrow> bool \<Rightarrow> string \<Rightarrow> (error + string) \<times> world" where
  "UpdateTemplateAndCreateNewIndex w filePath newIndexName bulkIndexing includeTypeName extraSuffix =
     (case ReadFile w filePath of
        Inl err \<Rightarrow> (Inl (Wrap err (''failed reading file '' @ filePath)), w)
      | Inr bytes \<Rightarrow>
          (let fileName = snd (Split filePath);
               index = TrimSuffix fileName ''.json'';
               mapping = bytes
           in case IndexPutTemplate index includeTypeName mapping w of
                (Inl err, w1) \<Rightarrow> (Inl (Wrap err (''failed updating index template '' @ index)), w1)
              | (Inr _, w1) \<Rightarrow>
                  (let newIndexName = newIndexName_of index (Now w1) newIndexName extraSuffix
                   in case IndexExists newIndexName w1 of
                        (Inl err, w2) \<Rightarrow>
                          (Inl (Wrap err (''failed checking for index '' @ newIndexName)), w2)
                      | (Inr exists, w2) \<Rightarrow>
                          (case (if \<not> exists then CreateIndex newIndexName w2 else (Inr (), w2)) of
                             (Inl err, w3) \<Rightarrow>
                               (Inl (Wrap err (''failed creating index '' @ newIndexName)), w3)
                           | (Inr _, w3) \<Rightarrow>
                               (if bulkIndexing then
                                  (case IndexPutSettings newIndexName indexingSettings w3 of
                                     (Inl err, w4) \<Rightarrow>
                                       (Inl (Wrap err (''failed setting index refresh_interval/replica settings for index '' @ newIndexName)), w4)
                                   | (Inr _, w4) \<Rightarrow> (Inr newIndexName, w4))
                                else (Inr newIndexName, w3))))))"

text \<open>
  \<open>ioutil.ReadDir\<close> lists a directory sorted by file name; \<open>filepath.Join\<close>
  joins its non-empty arguments with a slash and cleans the result lexically.
\<close>

definition ReadDir :: "world \<Rightarrow> string \<Rightarrow> error + (string \<times> bool) list" where
  "ReadDir w dir =
     (case dirs w dir of
        None \<Rightarrow> Inl (IoError dir)
      | Some entries \<Rightarrow> Inr (sort_key fst entries))"

fun splitOn :: "char \<Rightarrow> string \<Rightarrow> string list" where
  "splitOn c [] = [Nil]"
| "splitOn c (x # xs) =
     (if x = c then [] # splitOn c xs
      else (x # hd (splitOn c xs)) # tl (splitOn c xs))"

fun cleanElems :: "bool \<Rightarrow> string list \<Rightarrow> string list \<Rightarrow> string list" where
  "cleanElems rooted out [] = out"
| "cleanElems rooted out (e # es) =
     (if e = [] \<or> e = ''.'' then cleanElems rooted out es
      else if e = ''..'' then
        (if out \<noteq> [] \<and> last out \<noteq> ''..'' then cleanElems rooted (butlast out) es
         else if rooted then cleanElems rooted out es
         else cleanElems rooted (out @ [e]) es)
      else cleanElems rooted (out @ [e]) es)"

fun joinElems :: "string list \<Rightarrow> string" where
  "joinElems [] = []"
| "joinElems [e] = e"
| "joinElems (e # es) = e @ ''/'' @ joinElems es"

definition Clean :: "string \<Rightarrow> string" where
  "Clean path =
     (let rooted = (path \<noteq> [] \<and> hd path = CHR ''/'');
          out = (if rooted then ''/'' else []) @ joinElems (cleanElems rooted [] (splitOn CHR ''/'' path))
      in if out = [] then ''.'' else out)"

definition Join :: "string \<Rightarrow> string \<Rightarrow> string" where
  "Join a b =
     (if a = [] \<and> b = [] then []
      else if a = [] then Clean b
      else if b = [] then Clean a
      else Clean (a @ ''/'' @ b))"

text \<open>
  The alias-to-new-index table is a Go map: an association list with distinct keys. Go
  ranges over a map in an order of its own choosing; the model ranges in list order.
\<close>

fun mapAssign :: "(string \<times> string) list \<Rightarrow> string \<Rightarrow> string \<Rightarrow> (string \<times> string) list" where
  "mapAssign [] k v = [(k, v)]"
| "mapAssign (p # ps) k v = (if fst p = k then (k, v) # ps else p # mapAssign ps k v)"

fun provisionLoop ::
  "world \<Rightarrow> string \<Rightarrow> (string \<times> bool) list \<Rightarrow> bool \<Rightarrow> bool \<Rightarrow> string \<Rightarrow> (string \<times> string) list
     \<Rightarrow> (error + (string \<times> string) list) \<times> world" where
  "provisionLoop w templatesDir [] bulkIndexing includeTypeName extraSuffix aliasToNewIndex =
     (Inr aliasToNewIndex, w)"
| "provisionLoop w templatesDir ((name, isDir) # entries) bulkIndexing includeTypeName extraSuffix aliasToNewIndex =
     (if HasPrefix name ''.'' \<or> isDir then
        provisionLoop w templatesDir entries bulkIndexing includeTypeName extraSuffix aliasToNewIndex
      else
        (let filePath = Join templatesDir name
         in case UpdateTemplateAndCreateNewIndex w filePath [] bulkIndexing includeTypeName extraSuffix of
              (Inl err, w') \<Rightarrow>
                (Inl (Wrap err (''failed create new index from updated template '' @ filePath)), w')
            | (Inr newIndex, w') \<Rightarrow>
                (let alias = TrimSuffix name ''.json''
                 in provisionLoop w' templatesDir entries bulkIndexing includeTypeName extraSuffix
                      (mapAssign aliasToNewIndex alias newIndex))))"

definition UpdateTemplatesAndCreateNewIndices ::
  "world \<Rightarrow> string \<Rightarrow> bool \<Rightarrow> bool \<Rightarrow> string \<Rightarrow> (error + (string \<times> string) list) \<times> world" where
  "UpdateTemplatesAndCreateNewIndices w templatesDir bulkIndexing includeTypeName extraSuffix =
     (case ReadDir w templatesDir of
        Inl err \<Rightarrow> (Inl (Wrap err (''failed reading files in directory '' @ templatesDir)), w)
      | Inr entries \<Rightarrow> provisionLoop w templatesDir entries bulkIndexing includeTypeName extraSuffix [])"

section \<open>Reindex-and-alias-swap orchestrator\<close>

text \<open>Lines 218 to 260. The loop removes the alias from each index of the lookup's reply.\<close>

fun removeLoop :: "world \<Rightarrow> string list \<Rightarrow> string \<Rightarrow> error option \<times> world" where
  "removeLoop w [] alias = (None, w)"
| "removeLoop w (index # rest) alias =
     (case AliasRemove index alias w of
        (Inl err, w') \<Rightarrow>
          (Some (Wrap err (''failed removing index '' @ index @ '' from alias '' @ alias)), w')
      | (Inr _, w') \<Rightarrow> removeLoop w' rest alias)"

definition addAlias :: "world \<Rightarrow> string \<Rightarrow> string \<Rightarrow> error option \<times> world" where
  "addAlias w alias newIndex =
     (case AliasAdd newIndex alias w of
        (Inl err, w') \<Rightarrow>
          (Some (Wrap err (''failed adding index '' @ newIndex @ '' to alias '' @ alias)), w')
      | (Inr _, w') \<Rightarrow> (None, w'))"

definition UpdateAlias :: "world \<Rightarrow> string \<Rightarrow> string \<Rightarrow> error option \<times> world" where
  "UpdateAlias w alias newIndex =
     (case IndexExists newIndex w of
        (r, w1) \<Rightarrow>
          (let err = (case r of Inl e \<Rightarrow> Some e | Inr _ \<Rightarrow> None);
               exists = (case r of Inl _ \<Rightarrow> False | Inr b \<Rightarrow> b)
           in if err \<noteq> None \<or> \<not> exists then
                (Wrapf err (''failed checking for index '' @ newIndex), w1)
              else
                (case Aliases alias w1 of
                   (Inr indicesFromAlias, w2) \<Rightarrow>
                     (case removeLoop w2 indicesFromAlias alias of
                        (Some e, w3) \<Rightarrow> (Some e, w3)
                      | (None, w3) \<Rightarrow> addAlias w3 alias newIndex)
                 | (Inl err, w2) \<Rightarrow>
                     (if \<not> IsNotFound err then
                        (Some (Wrap err (''failed trying to lookup alias '' @ alias)), w2)
                      else addAlias w2 alias newIndex))))"

text \<open>Lines 153 to 172: one reindex call per source index.\<close>

fun reindexLoop :: "world \<Rightarrow> string list \<Rightarrow> string \<Rightarrow> string \<Rightarrow> bool \<Rightarrow> error option \<times> world" where
  "reindexLoop w [] newIndex remoteSrc versionExternal = (None, w)"
| "reindexLoop w (index # rest) newIndex remoteSrc versionExternal =
     (let targetVersionType = (if versionExternal then ''external'' else ''internal'')
      in case Reindex index remoteSrc newIndex targetVersionType w of
           (Inl err, w') \<Rightarrow>
             (Some (Wrap err (''failed reindexing from '' @ index @ '' to '' @ newIndex)), w')
         | (Inr _, w') \<Rightarrow> reindexLoop w' rest newIndex remoteSrc versionExternal)"

text \<open>
  Lines 185 to 190: \<open>templates[alias].Settings["index"].(map[string]interface{})[key]\<close>,
  then \<open>.(string)\<close> on the value found. The template pointer is dereferenced and both
  type assertions are of the panicking form; only the last map lookup is of the
  comma-ok form. The result is the JSON text to send, the quoted value or \<open>null\<close>;
  \<open>None\<close> stands for the run-time panic.
\<close>

definition templateSetting ::
  "(string \<rightharpoonup> (string \<times> json) list) \<Rightarrow> string \<Rightarrow> string \<Rightarrow> string option" where
  "templateSetting tmpls alias key =
     (case tmpls alias of
        None \<Rightarrow> None
      | Some Settings \<Rightarrow>
          (case map_of Settings ''index'' of
             Some (JObject index) \<Rightarrow>
               (case map_of index key of
                  None \<Rightarrow> Some ''null''
                | Some (JString v) \<Rightarrow> Some (quote v)
                | Some _ \<Rightarrow> None)
           | _ \<Rightarrow> None))"

definition resetRefreshInterval :: "string \<Rightarrow> string \<Rightarrow> string" where
  "resetRefreshInterval seconds replicas =
     ''{'' @ nl @
     tab @ tab @ quote ''index'' @ '' : {'' @ nl @
     tab @ tab @ tab @ quote ''refresh_interval'' @ '' : '' @ seconds @ '','' @ nl @
     tab @ tab @ tab @ quote ''number_of_replicas'' @ '' : '' @ replicas @ nl @
     tab @ tab @ ''}'' @ nl @
     tab @ ''}'' @ nl @
     tab"

text \<open>Lines 177 to 209: the settings restore.\<close>

definition restoreSettings :: "world \<Rightarrow> string \<Rightarrow> string \<Rightarrow> error option outcome \<times> world" where
  "restoreSettings w alias newIndex =
     (case IndexGetTemplate alias w of
        (Inl err, w1) \<Rightarrow> (Returns (Some (Wrap err (''failed to retrieve index template '' @ alias))), w1)
      | (Inr tmpls, w1) \<Rightarrow>
          (case templateSetting tmpls alias ''refresh_interval'' of
             None \<Rightarrow> (Panics, w1)
           | Some seconds \<Rightarrow>
               (case templateSetting tmpls alias ''number_of_replicas'' of
                  None \<Rightarrow> (Panics, w1)
                | Some replicas \<Rightarrow>
                    (case IndexPutSettings newIndex (resetRefreshInterval seconds replicas) w1 of
                       (Inl err, w2) \<Rightarrow>
                         (Returns (Some (Wrap err (''failed setting index bulkimport/replica settings for index '' @ newIndex))), w2)
                     | (Inr _, w2) \<Rightarrow> (Returns None, w2)))))"

text \<open>Lines 176 to 215: what follows the document copy.\<close>

definition restoreAndSwap :: "world \<Rightarrow> string \<Rightarrow> string \<Rightarrow> bool \<Rightarrow> bool \<Rightarrow> error option outcome \<times> world" where
  "restoreAndSwap w alias newIndex noUpdateAlias bulkIndexing =
     (case (if \<not> noUpdateAlias \<or> \<not> bulkIndexing then restoreSettings w alias newIndex
            else (Returns None, w)) of
        (Returns None, w') \<Rightarrow>
          (if \<not> noUpdateAlias then
             (case UpdateAlias w' alias newIndex of (err, w'') \<Rightarrow> (Returns err, w''))
           else (Returns None, w'))
      | (stop, w') \<Rightarrow> (stop, w'))"

definition ReindexOne ::
  "world \<Rightarrow> string \<Rightarrow> string \<Rightarrow> string \<Rightarrow> bool \<Rightarrow> bool \<Rightarrow> bool \<Rightarrow> error option outcome \<times> world" where
  "ReindexOne w alias newIndex remoteSrc versionExternal noUpdateAlias bulkIndexing =
     (case Aliases alias w of
        (aliasResult, w1) \<Rightarrow>
          (case (case aliasResult of
                   Inl err \<Rightarrow>
                     (if \<not> IsNotFound err then
                        Inl (Wrap err (''failed trying to lookup alias '' @ alias))
                      else Inr False)
                 | Inr _ \<Rightarrow> Inr True) of
             Inl err \<Rightarrow> (Returns (Some err), w1)
           | Inr reindexingRequired \<Rightarrow>
               (case (if reindexingRequired \<or> remoteSrc \<noteq> [] then
                        (let indicesFromAlias =
                               (if remoteSrc = [] then
                                  (case aliasResult of Inr found \<Rightarrow> found | Inl _ \<Rightarrow> [])
                                else [alias])
                         in reindexLoop w1 indicesFromAlias newIndex remoteSrc versionExternal)
                      else (None, w1)) of
                  (Some err, w2) \<Rightarrow> (Returns (Some err), w2)
                | (None, w2) \<Rightarrow> restoreAndSwap w2 alias newIndex noUpdateAlias bulkIndexing)))"

definition resetAllocation :: "string \<Rightarrow> string" where
  "resetAllocation allocation =
     ''{'' @ nl @
     tab @ tab @ quote ''index'' @ '' : {'' @ nl @
     tab @ tab @ tab @ quote ''routing.allocation.require._name'' @ '' : '' @ quote allocation @ nl @
     tab @ tab @ ''}'' @ nl @
     tab @ ''}'' @ nl @
     tab"

definition UpdateHostAllocation :: "world \<Rightarrow> string \<Rightarrow> string \<Rightarrow> error option \<times> world" where
  "UpdateHostAllocation w newIndex allocation =
     (case IndexPutSettings newIndex (resetAllocation allocation) w of
        (Inl err, w') \<Rightarrow>
          (Some (Wrap err (''failed setting routing allocation to '' @ allocation @ '' for index '' @ newIndex)), w')
      | (Inr _, w') \<Rightarrow> (None, w'))"

fun ReindexAll :: "world \<Rightarrow> (string \<times> string) list \<Rightarrow> string \<Rightarrow> error option outcome \<times> world" where
  "ReindexAll w [] remoteSrc = (Returns None, w)"
| "ReindexAll w ((alias, newIndex) # rest) remoteSrc =
     (case ReindexOne w alias newIndex remoteSrc False False False of
        (Returns None, w') \<Rightarrow> ReindexAll w' rest remoteSrc
      | (Returns (Some err), w') \<Rightarrow>
          (Returns (Some (Wrap err (''failed reindexing to '' @ newIndex @ '' and adding to alias '' @ alias))), w')
      | (stop, w') \<Rightarrow> (stop, w'))"

section \<open>Retention cleanup\<close>

text \<open>
  Go's \<open>int\<close> is 64 bits wide on the platform the tool is built for. The loop bound
  \<open>len(matches)-maxHistory\<close> is computed in that type, and \<open>matches[i]\<close> panics
  when \<open>i\<close> is not below the length. \<open>sort.Strings\<close> orders byte-wise.
\<close>

type_synonym go_int = "64 word"

function deleteLoop :: "world \<Rightarrow> string list \<Rightarrow> go_int \<Rightarrow> nat \<Rightarrow> error option outcome \<times> world" where
  "deleteLoop w matches maxHistory i =
     (if int i < sint (word_of_nat (length matches) - maxHistory) then
        (if i < length matches then
           (case DeleteIndex (matches ! i) w of
              (Inl err, w') \<Rightarrow>
                (Returns (Some (Wrap err (''error deleting index '' @ matches ! i @ '', not continuing''))), w')
            | (Inr _, w') \<Rightarrow> deleteLoop w' matches maxHistory (Suc i))
         else (Panics, w))
      else (Returns None, w))"
  by pat_completeness auto
termination
  by (relation "measure (\<lambda>(w, matches, maxHistory, i).
        nat (sint (word_of_nat (length matches) - maxHistory) - int i))") auto

definition CleanupOne :: "world \<Rightarrow> string \<Rightarrow> go_int \<Rightarrow> error option outcome \<times> world" where
  "CleanupOne w indexTemplateName maxHistory =
     (case IndexNames w of
        (Inl err, w1) \<Rightarrow> (Returns (Some (Wrap err ''could not get index names'')), w1)
      | (Inr names, w1) \<Rightarrow>
          (let matches = sort (filter (\<lambda>index. HasPrefix index indexTemplateName) names)
           in deleteLoop w1 matches maxHistory 0))"

fun CleanupAll_loop :: "world \<Rightarrow> (string \<times> bool) list \<Rightarrow> go_int \<Rightarrow> error option outcome \<times> world" where
  "CleanupAll_loop w [] maxHistory = (Returns None, w)"
| "CleanupAll_loop w ((name, isDir) # entries) maxHistory =
     (let indexTemplateName = TrimSuffix name ''.json''
      in case CleanupOne w indexTemplateName maxHistory of
           (Returns None, w') \<Rightarrow> CleanupAll_loop w' entries maxHistory
         | (stop, w') \<Rightarrow> (stop, w'))"

definition CleanupAll :: "world \<Rightarrow> string \<Rightarrow> go_int \<Rightarrow> error option outcome \<times> world" where
  "CleanupAll w templatesDir maxHistory =
     (case ReadDir w templatesDir of
        Inl err \<Rightarrow> (Returns (Some (Wrap err (''failed reading files in directory '' @ templatesDir))), w)
      | Inr entries \<Rightarrow> CleanupAll_loop w entries maxHistory)"

section \<open>The command line\<close>

text \<open>
  What the flag parser hands to a command: the positional arguments and the flags of
  the commands. A string flag that was not given is \<open>None\<close>; \<open>c.String\<close>
  then reads it as the empty string. The connection flags (url, user, password, TLS) only
  select the cluster and are left out. \<open>elastic.NewClient\<close> connects to the cluster
  when it is created, and may fail there.
\<close>

record Context =
  args :: "string list"
  dest_index :: "string option"
  bulk_indexing :: bool
  version_external :: bool
  no_update_alias :: bool
  include_type_name :: bool
  reindex_host_allocation :: "string option"
  dest_host_allocation :: "string option"
  extra_suffix :: "string option"
  max_history :: go_int
  alias_flag :: "string option"

definition NArg :: "Context \<Rightarrow> nat" where
  "NArg c = length (args c)"

definition First :: "Context \<Rightarrow> string" where
  "First c = (case args c of [] \<Rightarrow> [] | a # _ \<Rightarrow> a)"

definition IsSet :: "string option \<Rightarrow> bool" where
  "IsSet flag \<longleftrightarrow> flag \<noteq> None"

definition String :: "string option \<Rightarrow> string" where
  "String flag = (case flag of None \<Rightarrow> [] | Some v \<Rightarrow> v)"

definition getClient :: "Context \<Rightarrow> world \<Rightarrow> (error + unit) \<times> world" where
  "getClient c w =
     (case issue C_NewClient w of
        (Some err, w') \<Rightarrow> (Inl err, w')
      | (None, w') \<Rightarrow> (Inr (), w'))"

definition usage :: string where
  "usage = ''This command requires a json index template file path or a directory of json index templates'' @ nl @ nl"

text \<open>
  The \<open>reindex\<close> command. Its calls into the library are those of the command as
  written, which passes no remote source: the library functions get the empty one.
\<close>

definition cli_Reindex :: "Context \<Rightarrow> world \<Rightarrow> error option outcome \<times> world" where
  "cli_Reindex c w =
     (if NArg c = 0 \<or> NArg c > 1 then (Exits 1 usage, w)
      else
        (case getClient c w of
           (Inl err, w1) \<Rightarrow> (Returns (Some (Wrap err ''error connecting to ElasticSearch'')), w1)
         | (Inr _, w1) \<Rightarrow>
             (if HasSuffix (First c) ''.json'' then
                (let filePath = First c
                 in case UpdateTemplateAndCreateNewIndex w1 filePath (String (dest_index c))
                           (bulk_indexing c) (include_type_name c) (String (extra_suffix c)) of
                      (Inl err, w2) \<Rightarrow> (Returns (Some err), w2)
                    | (Inr newIndex, w2) \<Rightarrow>
                        (case (if IsSet (reindex_host_allocation c) then
                                 UpdateHostAllocation w2 newIndex (String (reindex_host_allocation c))
                               else (None, w2)) of
                           (Some err, w3) \<Rightarrow> (Returns (Some err), w3)
                         | (None, w3) \<Rightarrow>
                             (let fileName = snd (Split filePath);
                                  alias = TrimSuffix fileName ''.json''
                              in case ReindexOne w3 alias newIndex [] (version_external c)
                                        (no_update_alias c) (bulk_indexing c) of
                                   (Returns None, w4) \<Rightarrow>
                                     (if IsSet (dest_host_allocation c) then
                                        (case UpdateHostAllocation w4 newIndex (String (dest_host_allocation c)) of
                                           (err, w5) \<Rightarrow> (Returns err, w5))
                                      else (Returns None, w4))
                                 | (stop, w4) \<Rightarrow> (stop, w4))))
              else if IsSet (dest_index c) then
                (Exits 1 ''--dest-index not supported with multiple indexes, please only specify one index template .json.'', w1)
              else
                (let directory = First c
                 in case UpdateTemplatesAndCreateNewIndices w1 directory (bulk_indexing c)
                           (include_type_name c) (String (extra_suffix c)) of
                      (Inl err, w2) \<Rightarrow> (Returns (Some err), w2)
                    | (Inr aliasToNewIndex, w2) \<Rightarrow> ReindexAll w2 aliasToNewIndex []))))"

definition cli_Cleanup :: "Context \<Rightarrow> world \<Rightarrow> error option outcome \<times> world" where
  "cli_Cleanup c w =
     (if NArg c = 0 \<or> NArg c > 1 then (Exits 1 usage, w)
      else
        (case getClient c w of
           (Inl err, w1) \<Rightarrow> (Returns (Some (Wrap err ''error connecting to ElasticSearch'')), w1)
         | (Inr _, w1) \<Rightarrow>
             (if HasSuffix (First c) ''.json'' then
                (let filePath = First c;
                     fileName = snd (Split filePath);
                     alias = TrimSuffix fileName ''.json''
                 in CleanupOne w1 alias (max_history c))
              else
                (let directory = First c
                 in CleanupAll w1 directory (max_history c)))))"

definition cli_UpdateAlias :: "Context \<Rightarrow> world \<Rightarrow> error option outcome \<times> world" where
  "cli_UpdateAlias c w =
     (if \<not> IsSet (alias_flag c) \<or> \<not> IsSet (dest_index c) then (Exits 1 usage, w)
      else
        (case getClient c w of
           (Inl err, w1) \<Rightarrow> (Returns (Some (Wrap err ''error connecting to ElasticSearch'')), w1)
         | (Inr _, w1) \<Rightarrow>
             (case UpdateAlias w1 (String (alias_flag c)) (String (dest_index c)) of
                (err, w2) \<Rightarrow> (Returns err, w2))))"

section \<open>Notions used in the statements\<close>

text \<open>A cluster that accepts every call.\<close>

definition nofaults :: "world \<Rightarrow> bool" where
  "nofaults w \<longleftrightarrow> (\<forall>j. faults w j = None)"

text \<open>
  A cluster whose not-found answers are its own: no failing call is mistaken for a 404.
\<close>

definition truthful :: "world \<Rightarrow> bool" where
  "truthful w \<longleftrightarrow> (\<forall>j e. faults w j = Some e \<longrightarrow> \<not> IsNotFound e)"

text \<open>The calls issued between two states of a run.\<close>

definition calls_since :: "world \<Rightarrow> world \<Rightarrow> call list" where
  "calls_since w w' = drop (length (log w)) (log w')"

text \<open>The calls of the settings restore and of the alias swap: none of them copies documents.\<close>

definition swapCalls :: "string \<Rightarrow> string \<Rightarrow> call set" where
  "swapCalls alias newIndex =
     {C_IndexGetTemplate alias, C_IndexExists newIndex, C_Aliases alias, C_AliasAdd newIndex alias} \<union>
     range (C_IndexPutSettings newIndex) \<union> range (\<lambda>i. C_AliasRemove i alias)"

text \<open>A clock reading of the common era: its year has four digits.\<close>

definition valid_time :: "time \<Rightarrow> bool" where
  "valid_time t \<longleftrightarrow>
     year t < 10000 \<and> 1 \<le> month t \<and> month t \<le> 12 \<and> 1 \<le> day t \<and> day t \<le> 31 \<and>
     hour t < 24 \<and> minute t < 60 \<and> second t < 60"

section \<open>Runs used as examples\<close>

definition ex_time :: time where
  "ex_time = \<lparr>year = 2020, month = 3, day = 7, hour = 9, minute = 5, second = 59\<rparr>"

text \<open>
  Five generations of the \<open>twitter\<close> index and one unrelated index; the alias is on
  the two youngest generations. The template declares a refresh interval only, and the
  document in the template store is older than the template file.
\<close>

definition ex_cluster :: world where
  "ex_cluster =
     \<lparr>files = [''templates/twitter.json'' \<mapsto> ''{}''],
      dirs = [''templates'' \<mapsto> [(''twitter.json'', False)]],
      clock = (\<lambda>_. ex_time),
      decode_settings = (\<lambda>_. [(''index'', JObject [(''refresh_interval'', JString ''5s'')])]),
      templates = [''twitter'' \<mapsto> ''{'' @ quote ''order'' @ '': 1}''],
      indices = [''twitter-3'', ''users-1'', ''twitter-1'', ''twitter-5'', ''twitter-2'', ''twitter-4''],
      aliases = [(''twitter-4'', ''twitter''), (''twitter-5'', ''twitter'')],
      faults = (\<lambda>_. None),
      log = []\<rparr>"

text \<open>The same cluster: a little later; before the alias exists; with a template that
  has no settings; answering the first call with an error; and out of reach.\<close>

definition ex_later :: world where
  "ex_later = ex_cluster\<lparr>clock := (\<lambda>_. ex_time\<lparr>minute := 6, second := 0\<rparr>)\<rparr>"

definition ex_fresh :: world where
  "ex_fresh = ex_cluster\<lparr>aliases := []\<rparr>"

definition ex_bare :: world where
  "ex_bare = ex_cluster\<lparr>decode_settings := (\<lambda>_. [])\<rparr>"

definition ex_down :: world where
  "ex_down = ex_cluster\<lparr>faults := (\<lambda>j. if j = 0 then Some (EsError 503) else None)\<rparr>"

definition ex_offline :: world where
  "ex_offline =
     ex_cluster\<lparr>faults := (\<lambda>j. if j = 0 then Some (Failure ''no Elasticsearch node available'') else None)\<rparr>"

definition ex_table :: "(string \<times> string) list" where
  "ex_table = [(''twitter'', ''twitter-5'')]"

text \<open>\<open>cleanup --max-history -1 templates/twitter.json\<close>\<close>

definition ex_cleanup :: Context where
  "ex_cleanup =
     \<lparr>args = [''templates/twitter.json''], dest_index = None, bulk_indexing = False,
      version_external = False, no_update_alias = False, include_type_name = False,
      reindex_host_allocation = None, dest_host_allocation = None, extra_suffix = None,
      max_history = - 1, alias_flag = None\<rparr>"

text \<open>\<open>reindex --dest-index twitter-9 --version-external templates\<close>\<close>

definition ex_batch :: Context where
  "ex_batch =
     \<lparr>args = [''templates''], dest_index = Some ''twitter-9'', bulk_indexing = False,
      version_external = True, no_update_alias = False, include_type_name = False,
      reindex_host_allocation = None, dest_host_allocation = None, extra_suffix = None,
      max_history = 2, alias_flag = None\<rparr>"

section \<open>Retention cleanup: proofs\<close>

declare deleteLoop.simps [simp del]

lemma sint_of_nat_small:
  assumes "n < 2 ^ 63"
  shows "sint (word_of_nat n :: go_int) = int n"
proof -
  have "sint (word_of_int (int n) :: go_int) = signed_take_bit 63 (int n)"
    using sint_sbintrunc' [where ?'a = 64, of "int n"] by simp
  moreover have "signed_take_bit 63 (int n) = int n"
    using assms by (intro signed_take_bit_int_eq_self) simp_all
  ultimately show ?thesis by simp
qed

text \<open>The loop bound does not wrap around as long as the difference fits 64 bits.\<close>

lemma loop_bound:
  assumes "n < 2 ^ 63" and "- (2 ^ 63) \<le> int n - sint (N :: go_int)" and "int n - sint N < 2 ^ 63"
  shows "sint (word_of_nat n - N) = int n - sint N"
proof -
  have "signed_take_bit 63 (int n - sint N) = int n - sint N"
    using assms(2,3) by (intro signed_take_bit_int_eq_self) simp_all
  then show ?thesis
    by (simp add: sint_word_diff sint_of_nat_small [OF assms(1)])
qed

lemma loop_bound_nonneg:
  assumes "0 \<le> sint (N :: go_int)" and "n < 2 ^ 63"
  shows "sint (word_of_nat n - N) = int n - sint N"
proof -
  have "sint N < 2 ^ 63" using sint_lt [of N] by simp
  then show ?thesis using assms by (intro loop_bound) simp_all
qed

lemma deleteLoop_no_panic:
  "0 \<le> sint N \<Longrightarrow> length ms < 2 ^ 63 \<Longrightarrow> fst (deleteLoop w ms N i) \<noteq> Panics"
proof (induction w ms N i rule: deleteLoop.induct)
  case (1 w ms N i)
  have b: "sint (word_of_nat (length ms) - N) = int (length ms) - sint N"
    using 1(2,3) by (rule loop_bound_nonneg)
  show ?case
  proof (cases "int i < sint (word_of_nat (length ms) - N)")
    case False
    then show ?thesis by (subst deleteLoop.simps) simp
  next
    case True
    then have i: "i < length ms" using b 1(2) by linarith
    obtain r w' where d: "DeleteIndex (ms ! i) w = (r, w')" by (cases "DeleteIndex (ms ! i) w")
    show ?thesis
    proof (cases r)
      case (Inl e)
      then show ?thesis using True i d by (subst deleteLoop.simps) simp
    next
      case (Inr u)
      have "fst (deleteLoop w' ms N (Suc i)) \<noteq> Panics"
        using "1.IH" [OF True i d [symmetric] Inr 1(2,3)] .
      then show ?thesis using True i d Inr by (subst deleteLoop.simps) simp
    qed
  qed
qed

lemma DeleteIndex_nofaults:
  assumes "nofaults w"
  shows "DeleteIndex name w =
     (Inr (), w\<lparr>log := log w @ [C_DeleteIndex name], indices := removeAll name (indices w),
                aliases := filter (\<lambda>(x, a). x \<noteq> name) (aliases w)\<rparr>)"
  using assms by (simp add: DeleteIndex_def issue_def nofaults_def)

text \<open>
  With no failing call and a count that is not negative, the loop deletes the matches at
  positions \<open>i\<close> up to \<open>length ms - N\<close> and nothing else.
\<close>

lemma deleteLoop_nofaults:
  assumes "nofaults w" and "0 \<le> sint N" and "length ms < 2 ^ 63"
  shows "deleteLoop w ms N i =
     (Returns None,
      w\<lparr>log := log w @ map C_DeleteIndex (drop i (take (length ms - nat (sint N)) ms)),
        indices := filter (\<lambda>x. x \<notin> set (drop i (take (length ms - nat (sint N)) ms))) (indices w),
        aliases := filter (\<lambda>(x, a). x \<notin> set (drop i (take (length ms - nat (sint N)) ms))) (aliases w)\<rparr>)"
  using assms(1)
proof (induction "length ms - nat (sint N) - i" arbitrary: i w)
  case 0
  have b: "sint (word_of_nat (length ms) - N) = int (length ms) - sint N"
    using assms(2,3) by (rule loop_bound_nonneg)
  have "\<not> int i < sint (word_of_nat (length ms) - N)" using 0 b assms(2) by linarith
  moreover have "drop i (take (length ms - nat (sint N)) ms) = []" using 0 by simp
  ultimately show ?case by (subst deleteLoop.simps) simp
next
  case (Suc d)
  let ?k = "length ms - nat (sint N)"
  have b: "sint (word_of_nat (length ms) - N) = int (length ms) - sint N"
    using assms(2,3) by (rule loop_bound_nonneg)
  have lt: "int i < sint (word_of_nat (length ms) - N)" using Suc(2) b assms(2) by linarith
  have i: "i < length ms" "i < ?k" using Suc(2) by linarith+
  have dr: "drop i (take ?k ms) = ms ! i # drop (Suc i) (take ?k ms)"
    using i by (simp add: Cons_nth_drop_Suc [symmetric])
  let ?w' = "w\<lparr>log := log w @ [C_DeleteIndex (ms ! i)], indices := removeAll (ms ! i) (indices w),
                aliases := filter (\<lambda>(x, a). x \<noteq> ms ! i) (aliases w)\<rparr>"
  have d: "DeleteIndex (ms ! i) w = (Inr (), ?w')"
    using Suc(3) by (rule DeleteIndex_nofaults)
  have nf: "nofaults ?w'" using Suc(3) by (simp add: nofaults_def)
  have "d = ?k - Suc i" using Suc(2) by linarith
  from Suc(1) [OF this nf] show ?case
    apply (subst deleteLoop.simps)
    apply (simp add: lt i d dr removeAll_filter_not_eq)
    apply (rule arg_cong2 [where f = "\<lambda>a b. w\<lparr>log := _, indices := a, aliases := b\<rparr>"])
     apply (auto intro: filter_cong)
    done
qed

text \<open>
  With a negative count (and a bound that does not wrap around) the loop runs past the
  end of the matches: it deletes every match and then reads position \<open>length ms\<close>.
\<close>

lemma deleteLoop_negative:
  assumes "sint N < 0" and "length ms < 2 ^ 63" and "int (length ms) - sint N < 2 ^ 63"
  shows "nofaults w \<Longrightarrow> i \<le> length ms \<Longrightarrow> fst (deleteLoop w ms N i) = Panics"
proof (induction "length ms - i" arbitrary: i w)
  case 0
  have b: "sint (word_of_nat (length ms) - N) = int (length ms) - sint N"
    using assms by (intro loop_bound) simp_all
  have "int i < sint (word_of_nat (length ms) - N)" "\<not> i < length ms"
    using 0 b assms(1) by linarith+
  then show ?case by (subst deleteLoop.simps) simp
next
  case (Suc d)
  have b: "sint (word_of_nat (length ms) - N) = int (length ms) - sint N"
    using assms by (intro loop_bound) simp_all
  have lt: "int i < sint (word_of_nat (length ms) - N)" and i: "i < length ms"
    using Suc(2) b assms(1) by linarith+
  let ?w' = "w\<lparr>log := log w @ [C_DeleteIndex (ms ! i)], indices := removeAll (ms ! i) (indices w),
                aliases := filter (\<lambda>(x, a). x \<noteq> ms ! i) (aliases w)\<rparr>"
  have d: "DeleteIndex (ms ! i) w = (Inr (), ?w')"
    using Suc(3) by (rule DeleteIndex_nofaults)
  have nf: "nofaults ?w'" using Suc(3) by (simp add: nofaults_def)
  have "d = length ms - Suc i" "Suc i \<le> length ms" using Suc(2) i by linarith+
  from Suc(1) [OF this(1) nf this(2)] show ?case
    by (subst deleteLoop.simps) (simp add: lt i d)
qed

lemma IndexNames_nofaults:
  "nofaults w \<Longrightarrow> IndexNames w = (Inr (indices w), w\<lparr>log := log w @ [C_IndexNames]\<rparr>)"
  by (simp add: IndexNames_def issue_def nofaults_def)

lemma CleanupOne_nofaults:
  assumes "nofaults w" and "0 \<le> sint N" and "length (indices w) < 2 ^ 63"
  shows "CleanupOne w p N =
     (let matches = sort (filter (\<lambda>index. HasPrefix index p) (indices w));
          deleted = take (length matches - nat (sint N)) matches
      in (Returns None,
          w\<lparr>log := log w @ C_IndexNames # map C_DeleteIndex deleted,
            indices := filter (\<lambda>x. x \<notin> set deleted) (indices w),
            aliases := filter (\<lambda>(x, a). x \<notin> set deleted) (aliases w)\<rparr>))"
proof -
  let ?w1 = "w\<lparr>log := log w @ [C_IndexNames]\<rparr>"
  let ?ms = "sort (filter (\<lambda>index. HasPrefix index p) (indices w))"
  have nf: "nofaults ?w1" using assms(1) by (simp add: nofaults_def)
  have "length ?ms \<le> length (indices w)" by simp
  then have len: "length ?ms < 2 ^ 63" using assms(3) by linarith
  show ?thesis
    by (simp add: CleanupOne_def IndexNames_nofaults [OF assms(1)] Let_def
          deleteLoop_nofaults [OF nf assms(2) len, of 0])
qed

lemma ex_matches:
  "sort (filter (\<lambda>index. HasPrefix index ''twitter'') (indices ex_cluster)) =
     [''twitter-1'', ''twitter-2'', ''twitter-3'', ''twitter-4'', ''twitter-5'']"
  by (simp add: ex_cluster_def HasPrefix_def)

lemma ex_nofaults: "nofaults ex_cluster"
  by (simp add: nofaults_def ex_cluster_def)

text \<open>
  C1. For a count \<open>N\<close> that is not negative, and a cluster that accepts every call,
  \<open>CleanupOne\<close> returns without error having deleted exactly the first
  \<open>max 0 (M - N)\<close> of the \<open>M\<close> matches in sorted order: these are the delete calls
  it issues, in that order, and the indices gone from the cluster afterwards. The last
  \<open>N\<close> matches in sorted order are still there, and with \<open>N = 0\<close> no index of that
  prefix is left. (Index names are unique in a cluster, and a Go slice has fewer than
  \<open>2 ^ 63\<close> elements.)
\<close>

theorem CleanupOne_keeps_last_N:
  assumes "nofaults w" and "0 \<le> sint N" and "length (indices w) < 2 ^ 63" and "distinct (indices w)"
  shows "let matches = sort (filter (\<lambda>index. HasPrefix index p) (indices w));
             k = length matches - nat (sint N);
             w' = snd (CleanupOne w p N)
         in fst (CleanupOne w p N) = Returns None \<and>
            int k = max 0 (int (length matches) - sint N) \<and>
            calls_since w w' = C_IndexNames # map C_DeleteIndex (take k matches) \<and>
            indices w' = filter (\<lambda>x. x \<notin> set (take k matches)) (indices w) \<and>
            set (drop k matches) \<subseteq> set (indices w') \<and>
            (N = 0 \<longrightarrow> (\<forall>index \<in> set (indices w'). \<not> HasPrefix index p))"
proof -
  define ms where "ms = sort (filter (\<lambda>index. HasPrefix index p) (indices w))"
  define k where "k = length ms - nat (sint N)"
  define w' where "w' = snd (CleanupOne w p N)"
  have run: "CleanupOne w p N =
     (Returns None,
      w\<lparr>log := log w @ C_IndexNames # map C_DeleteIndex (take k ms),
        indices := filter (\<lambda>x. x \<notin> set (take k ms)) (indices w),
        aliases := filter (\<lambda>(x, a). x \<notin> set (take k ms)) (aliases w)\<rparr>)"
    using CleanupOne_nofaults [OF assms(1-3), of p] by (simp only: Let_def ms_def k_def)
  have d: "distinct ms" using assms(4) by (simp add: ms_def)
  from d have "distinct (take k ms @ drop k ms)" by simp
  then have disj: "set (take k ms) \<inter> set (drop k ms) = {}"
    by (simp only: distinct_append)
  have "set (drop k ms) \<subseteq> set ms" by (rule set_drop_subset)
  then have sub: "set (drop k ms) \<subseteq> set (indices w)" by (auto simp: ms_def)
  have c1: "fst (CleanupOne w p N) = Returns None" by (simp add: run)
  have c2: "int k = max 0 (int (length ms) - sint N)" using assms(2) unfolding k_def by linarith
  have c3: "calls_since w w' = C_IndexNames # map C_DeleteIndex (take k ms)"
    by (simp add: w'_def run calls_since_def)
  have c4: "indices w' = filter (\<lambda>x. x \<notin> set (take k ms)) (indices w)"
    by (simp add: w'_def run)
  have c5: "set (drop k ms) \<subseteq> set (indices w')"
    using disj sub by (auto simp: c4)
  have "N = 0 \<Longrightarrow> take k ms = ms" by (simp add: k_def)
  then have c6: "N = 0 \<longrightarrow> (\<forall>index \<in> set (indices w'). \<not> HasPrefix index p)"
    by (auto simp: c4 ms_def)
  from c1 c2 c3 c4 c5 c6 show ?thesis
    by (simp only: Let_def ms_def [symmetric] k_def [symmetric] w'_def [symmetric])
qed

theorem CleanupOne_keeps_last_N_witness:
  "nofaults ex_cluster \<and> 0 \<le> sint (2 :: go_int) \<and> length (indices ex_cluster) < 2 ^ 63 \<and>
   distinct (indices ex_cluster) \<and>
   fst (CleanupOne ex_cluster ''twitter'' 2) = Returns None \<and>
   calls_since ex_cluster (snd (CleanupOne ex_cluster ''twitter'' 2)) =
     [C_IndexNames, C_DeleteIndex ''twitter-1'', C_DeleteIndex ''twitter-2'', C_DeleteIndex ''twitter-3''] \<and>
   indices (snd (CleanupOne ex_cluster ''twitter'' 2)) = [''users-1'', ''twitter-5'', ''twitter-4''] \<and>
   indices (snd (CleanupOne ex_cluster ''twitter'' 0)) = [''users-1'']"
proof -
  have h2: "0 \<le> sint (2 :: go_int)" "0 \<le> sint (0 :: go_int)" by simp_all
  have h3: "length (indices ex_cluster) < 2 ^ 63" by (simp add: ex_cluster_def)
  have h4: "distinct (indices ex_cluster)" by (simp add: ex_cluster_def)
  have i: "indices ex_cluster =
     [''twitter-3'', ''users-1'', ''twitter-1'', ''twitter-5'', ''twitter-2'', ''twitter-4'']"
    by (simp add: ex_cluster_def)
  from CleanupOne_keeps_last_N [OF ex_nofaults h2(1) h3 h4, of "''twitter''"]
       CleanupOne_keeps_last_N [OF ex_nofaults h2(2) h3 h4, of "''twitter''"]
  show ?thesis
    unfolding Let_def ex_matches by (simp add: ex_nofaults h3 i)
qed

lemma getClient_connects:
  "faults w (length (log w)) = None \<Longrightarrow> getClient c w = (Inr (), w\<lparr>log := log w @ [C_NewClient]\<rparr>)"
  by (simp add: getClient_def issue_def)

lemma cli_Cleanup_one_file:
  assumes "args c = [path]" and "HasSuffix path ''.json''" and "faults w (length (log w)) = None"
  shows "cli_Cleanup c w =
     CleanupOne (w\<lparr>log := log w @ [C_NewClient]\<rparr>) (TrimSuffix (snd (Split path)) ''.json'') (max_history c)"
  using assms by (simp add: cli_Cleanup_def NArg_def First_def getClient_connects)

text \<open>
  C10. For a count \<open>N\<close> that is not negative the deletion loop never reads the sorted
  matches out of range, whichever calls fail: \<open>CleanupOne\<close> does not panic. The
  precondition is needed: with a negative count (whose loop bound does not wrap around)
  and a cluster that accepts every call, the loop deletes every match, then reads one
  position past the end and panics. The \<open>cleanup\<close> command hands the flag's value to
  \<open>CleanupOne\<close> as it is.
\<close>

theorem CleanupOne_index_in_range:
  assumes "length (indices w) < 2 ^ 63"
  shows "(0 \<le> sint N \<longrightarrow> fst (CleanupOne w p N) \<noteq> Panics) \<and>
         (sint N < 0 \<and> nofaults w \<and>
          int (length (filter (\<lambda>index. HasPrefix index p) (indices w))) - sint N < 2 ^ 63
            \<longrightarrow> fst (CleanupOne w p N) = Panics) \<and>
         (args c = [path] \<and> HasSuffix path ''.json'' \<and> faults w (length (log w)) = None
            \<longrightarrow> cli_Cleanup c w =
                  CleanupOne (w\<lparr>log := log w @ [C_NewClient]\<rparr>)
                    (TrimSuffix (snd (Split path)) ''.json'') (max_history c))"
proof (intro conjI impI)
  let ?f = "filter (\<lambda>index. HasPrefix index p)"
  have len: "length (sort (?f xs)) \<le> length xs" for xs by simp
  { assume n: "0 \<le> sint N"
    show "fst (CleanupOne w p N) \<noteq> Panics"
    proof (cases "IndexNames w")
      case (Pair r w1)
      show ?thesis
      proof (cases r)
        case (Inl e)
        then show ?thesis using Pair by (simp add: CleanupOne_def)
      next
        case (Inr names)
        then have nm: "names = indices w" using Pair
          by (auto simp: IndexNames_def issue_def split: option.splits)
        have "length (sort (?f names)) < 2 ^ 63"
          unfolding nm using len [of "indices w"] assms by linarith
        from deleteLoop_no_panic [OF n this] show ?thesis
          using Pair Inr by (simp add: CleanupOne_def)
      qed
    qed }
  { assume a: "sint N < 0 \<and> nofaults w \<and> int (length (?f (indices w))) - sint N < 2 ^ 63"
    let ?w1 = "w\<lparr>log := log w @ [C_IndexNames]\<rparr>"
    have nf: "nofaults ?w1" using a by (simp add: nofaults_def)
    have l1: "length (sort (?f (indices w))) < 2 ^ 63" using len [of "indices w"] assms by linarith
    have l2: "int (length (sort (?f (indices w)))) - sint N < 2 ^ 63" using a by simp
    from deleteLoop_negative [OF _ l1 l2 nf, of 0] a
    show "fst (CleanupOne w p N) = Panics"
      by (simp add: CleanupOne_def IndexNames_nofaults) }
  { assume "args c = [path] \<and> HasSuffix path ''.json'' \<and> faults w (length (log w)) = None"
    then show "cli_Cleanup c w =
        CleanupOne (w\<lparr>log := log w @ [C_NewClient]\<rparr>) (TrimSuffix (snd (Split path)) ''.json'') (max_history c)"
      by (simp add: cli_Cleanup_one_file) }
qed

lemma ex_path:
  "HasSuffix ''templates/twitter.json'' ''.json''"
  "TrimSuffix (snd (Split ''templates/twitter.json'')) ''.json'' = ''twitter''"
  by (simp_all add: Split_def TrimSuffix_def HasSuffix_def)

theorem CleanupOne_index_in_range_witness:
  "length (indices ex_cluster) < 2 ^ 63 \<and>
   0 \<le> sint (2 :: go_int) \<and> fst (CleanupOne ex_cluster ''twitter'' 2) \<noteq> Panics \<and>
   sint (max_history ex_cleanup) < 0 \<and> nofaults ex_cluster \<and>
   args ex_cleanup = [''templates/twitter.json''] \<and> HasSuffix ''templates/twitter.json'' ''.json'' \<and>
   fst (cli_Cleanup ex_cleanup ex_cluster) = Panics"
proof -
  let ?w1 = "ex_cluster\<lparr>log := log ex_cluster @ [C_NewClient]\<rparr>"
  have h1: "nofaults ?w1" using ex_nofaults by (simp add: nofaults_def)
  have h3: "length (indices ex_cluster) < 2 ^ 63" "length (indices ?w1) < 2 ^ 63"
    by (simp_all add: ex_cluster_def)
  have h5: "int (length (filter (\<lambda>index. HasPrefix index ''twitter'') (indices ?w1))) - sint (- 1 :: go_int) < 2 ^ 63"
    by (simp add: ex_cluster_def)
  have h6: "args ex_cleanup = [''templates/twitter.json'']" "max_history ex_cleanup = - 1"
    by (simp_all add: ex_cleanup_def)
  have h7: "faults ex_cluster (length (log ex_cluster)) = None" by (simp add: ex_cluster_def)
  from CleanupOne_index_in_range [OF h3(1), of 2 "''twitter''" ex_cleanup "''templates/twitter.json''"]
       CleanupOne_index_in_range [OF h3(2), of "- 1" "''twitter''" ex_cleanup "[]"] h1 h3 h5 h6 h7
  show ?thesis by (simp add: ex_path ex_nofaults)
qed

section \<open>Alias swap: proofs\<close>

lemmas client_defs = issue_def IndexPutTemplate_def IndexExists_def CreateIndex_def
  IndexPutSettings_def Aliases_def Reindex_def IndexGetTemplate_def AliasRemove_def
  AliasAdd_def IndexNames_def DeleteIndex_def

lemma removeLoop_run:
  "removeLoop w xs alias = (r, w') \<Longrightarrow>
     \<exists>n \<le> length xs.
       log w' = log w @ map (\<lambda>i. C_AliasRemove i alias) (take n xs) \<and>
       indices w' = indices w \<and> faults w' = faults w \<and>
       (r = None \<longrightarrow> n = length xs \<and>
          aliases w' = filter (\<lambda>p. p \<notin> (\<lambda>i. (i, alias)) ` set xs) (aliases w))"
proof (induction xs arbitrary: w)
  case Nil
  then show ?case by simp
next
  case (Cons x xs)
  show ?case
  proof (cases "faults w (length (log w))")
    case (Some e)
    with Cons.prems show ?thesis
      by (intro exI [of _ 1]) (auto simp: client_defs)
  next
    case None
    let ?w1 = "w\<lparr>log := log w @ [C_AliasRemove x alias], aliases := removeAll (x, alias) (aliases w)\<rparr>"
    from None Cons.prems have "removeLoop ?w1 xs alias = (r, w')"
      by (simp add: client_defs)
    from Cons.IH [OF this] obtain n where n: "n \<le> length xs"
      "log w' = log ?w1 @ map (\<lambda>i. C_AliasRemove i alias) (take n xs)"
      "indices w' = indices ?w1" "faults w' = faults ?w1"
      "r = None \<longrightarrow> n = length xs \<and>
          aliases w' = filter (\<lambda>p. p \<notin> (\<lambda>i. (i, alias)) ` set xs) (aliases ?w1)"
      by blast
    have "filter (\<lambda>p. p \<notin> (\<lambda>i. (i, alias)) ` set xs) (removeAll (x, alias) (aliases w)) =
          filter (\<lambda>p. p \<notin> (\<lambda>i. (i, alias)) ` set (x # xs)) (aliases w)"
      by (auto simp: removeAll_filter_not_eq intro: filter_cong)
    with n show ?thesis
      by (intro exI [of _ "Suc n"]) auto
  qed
qed

lemma byAlias_removed:
  "map fst (filter (\<lambda>(i, a). a = alias)
     (filter (\<lambda>p. p \<notin> (\<lambda>i. (i, alias)) ` set (map fst (filter (\<lambda>(i, a). a = alias) al))) al)) = []"
  by (auto simp: filter_empty_conv image_iff)

lemma byAlias_other:
  "b \<noteq> alias \<Longrightarrow>
   filter (\<lambda>(i, a). a = b) (filter (\<lambda>p. p \<notin> (\<lambda>i. (i, alias)) ` S) al) = filter (\<lambda>(i, a). a = b) al"
  by (induction al) auto

lemma byAlias_other_removeAll:
  "b \<noteq> alias \<Longrightarrow> filter (\<lambda>(i, a). a = b) (removeAll (n, alias) al) = filter (\<lambda>(i, a). a = b) al"
  by (induction al) auto

lemma byAlias_removeAll_empty:
  "filter (\<lambda>(i, a). a = alias) al = [] \<Longrightarrow> filter (\<lambda>(i, a). a = alias) (removeAll p al) = []"
  by (auto simp: filter_empty_conv)

lemma addAlias_run:
  "addAlias w alias newIndex = (r, w') \<Longrightarrow>
     log w' = log w @ [C_AliasAdd newIndex alias] \<and> indices w' = indices w \<and> faults w' = faults w \<and>
     (r = None \<longrightarrow> aliases w' = removeAll (newIndex, alias) (aliases w) @ [(newIndex, alias)])"
  by (auto simp: addAlias_def client_defs split: option.splits)

lemma UpdateAlias_calls:
  assumes "UpdateAlias w alias newIndex = (r, w')"
  shows "\<exists>cs. log w' = log w @ C_IndexExists newIndex # cs \<and>
           set cs \<subseteq> {C_Aliases alias, C_AliasAdd newIndex alias} \<union> range (\<lambda>i. C_AliasRemove i alias) \<and>
           indices w' = indices w \<and> faults w' = faults w \<and>
           (r = None \<and> newIndex \<in> set (indices w) \<longrightarrow> C_AliasAdd newIndex alias \<in> set cs)"
proof -
  let ?w1 = "w\<lparr>log := log w @ [C_IndexExists newIndex]\<rparr>"
  let ?w2 = "?w1\<lparr>log := log ?w1 @ [C_Aliases alias]\<rparr>"
  show ?thesis
  proof (cases "faults w (length (log w)) = None \<and> newIndex \<in> set (indices w)")
    case False
    with assms show ?thesis
      by (intro exI [of _ "[]"]) (auto simp: UpdateAlias_def client_defs split: option.splits)
  next
    case True
    have "snd (Aliases alias ?w1) = ?w2"
      by (simp add: client_defs split: option.splits)
    then obtain ar where ar: "Aliases alias ?w1 = (ar, ?w2)"
      by (cases "Aliases alias ?w1") auto
    show ?thesis
    proof (cases ar)
      case (Inl e)
      show ?thesis
      proof (cases "IsNotFound e")
        case nf: False
        with assms True ar Inl show ?thesis
          by (intro exI [of _ "[C_Aliases alias]"]) (auto simp: UpdateAlias_def IndexExists_def issue_def)
      next
        case nf: True
        with assms True ar Inl have "addAlias ?w2 alias newIndex = (r, w')"
          by (auto simp: UpdateAlias_def IndexExists_def issue_def)
        from addAlias_run [OF this] show ?thesis
          by (intro exI [of _ "[C_Aliases alias, C_AliasAdd newIndex alias]"]) auto
      qed
    next
      case (Inr xs)
      obtain r3 w3 where rl: "removeLoop ?w2 xs alias = (r3, w3)" by (cases "removeLoop ?w2 xs alias")
      from removeLoop_run [OF rl] obtain n where n:
        "log w3 = log ?w2 @ map (\<lambda>i. C_AliasRemove i alias) (take n xs)"
        "indices w3 = indices ?w2" "faults w3 = faults ?w2"
        by blast
      show ?thesis
      proof (cases r3)
        case (Some e)
        with assms True ar Inr rl have "w' = w3" "r = Some e"
          by (auto simp: UpdateAlias_def IndexExists_def issue_def)
        with n show ?thesis
          by (intro exI [of _ "C_Aliases alias # map (\<lambda>i. C_AliasRemove i alias) (take n xs)"]) auto
      next
        case None
        with assms True ar Inr rl have "addAlias w3 alias newIndex = (r, w')"
          by (auto simp: UpdateAlias_def IndexExists_def issue_def)
        from addAlias_run [OF this] n show ?thesis
          by (intro exI [of _ "C_Aliases alias # map (\<lambda>i. C_AliasRemove i alias) (take n xs) @ [C_AliasAdd newIndex alias]"]) auto
      qed
    qed
  qed
qed

text \<open>
  When the destination index exists and the cluster's not-found answers are truthful, a
  nil return of \<open>UpdateAlias\<close> leaves the alias on the new index alone, and every
  other alias as it was.
\<close>

lemma UpdateAlias_swaps:
  assumes "UpdateAlias w alias newIndex = (None, w')" and "newIndex \<in> set (indices w)" and "truthful w"
  shows "IndicesByAlias w' alias = [newIndex] \<and>
         (\<forall>b. b \<noteq> alias \<longrightarrow> IndicesByAlias w' b = IndicesByAlias w b)"
proof -
  let ?w1 = "w\<lparr>log := log w @ [C_IndexExists newIndex]\<rparr>"
  let ?w2 = "?w1\<lparr>log := log ?w1 @ [C_Aliases alias]\<rparr>"
  have f0: "faults w (length (log w)) = None"
    using assms(1) by (auto simp: UpdateAlias_def client_defs split: option.splits if_splits)
  have f1: "faults w (Suc (length (log w))) = None"
  proof (cases "faults w (Suc (length (log w)))")
    case (Some e)
    then have "\<not> IsNotFound e" using assms(3) by (auto simp: truthful_def)
    with Some assms(1,2) f0 show ?thesis
      by (auto simp: UpdateAlias_def client_defs)
  qed simp
  show ?thesis
  proof (cases "IndicesByAlias w alias = []")
    case True
    with assms(1,2) f0 f1 have "addAlias ?w2 alias newIndex = (None, w')"
      by (auto simp: UpdateAlias_def client_defs IndicesByAlias_def)
    from addAlias_run [OF this]
    have a': "aliases w' = removeAll (newIndex, alias) (aliases w) @ [(newIndex, alias)]" by simp
    from True have "filter (\<lambda>(i, a). a = alias) (aliases w) = []"
      by (simp add: IndicesByAlias_def)
    then have "IndicesByAlias w' alias = [newIndex]"
      unfolding IndicesByAlias_def a' by (simp add: byAlias_removeAll_empty)
    moreover have "b \<noteq> alias \<Longrightarrow> IndicesByAlias w' b = IndicesByAlias w b" for b
      unfolding IndicesByAlias_def a' by (simp add: byAlias_other_removeAll)
    ultimately show ?thesis by blast
  next
    case False
    obtain r3 w3 where rl: "removeLoop ?w2 (IndicesByAlias w alias) alias = (r3, w3)"
      by (cases "removeLoop ?w2 (IndicesByAlias w alias) alias")
    with assms(1,2) f0 f1 False have r3: "r3 = None" and add: "addAlias w3 alias newIndex = (None, w')"
      by (auto simp: UpdateAlias_def client_defs IndicesByAlias_def split: option.splits)
    from removeLoop_run [OF rl] r3
    have a3: "aliases w3 = filter (\<lambda>p. p \<notin> (\<lambda>i. (i, alias)) ` set (IndicesByAlias w alias)) (aliases w)"
      by auto
    have e3: "IndicesByAlias w3 alias = []"
      unfolding IndicesByAlias_def a3 by (rule byAlias_removed)
    have o3: "IndicesByAlias w3 b = IndicesByAlias w b" if "b \<noteq> alias" for b
    proof -
      have "filter (\<lambda>(i, a). a = b) (aliases w3) = filter (\<lambda>(i, a). a = b) (aliases w)"
        unfolding a3 using that by (rule byAlias_other)
      then show ?thesis by (simp add: IndicesByAlias_def)
    qed
    from addAlias_run [OF add]
    have a': "aliases w' = removeAll (newIndex, alias) (aliases w3) @ [(newIndex, alias)]" by simp
    from e3 have "filter (\<lambda>(i, a). a = alias) (aliases w3) = []"
      by (simp add: IndicesByAlias_def)
    then have "IndicesByAlias w' alias = [newIndex]"
      unfolding IndicesByAlias_def a' by (simp add: byAlias_removeAll_empty)
    moreover have "b \<noteq> alias \<Longrightarrow> IndicesByAlias w' b = IndicesByAlias w b" for b
      using o3 [of b] unfolding IndicesByAlias_def a' by (simp add: byAlias_other_removeAll)
    ultimately show ?thesis by blast
  qed
qed

lemma removeLoop_frame:
  "removeLoop w xs alias = (r, w') \<Longrightarrow> b \<noteq> alias \<Longrightarrow>
     filter (\<lambda>(i, a). a = b) (aliases w') = filter (\<lambda>(i, a). a = b) (aliases w)"
proof (induction xs arbitrary: w)
  case Nil
  then show ?case by simp
next
  case (Cons x xs)
  show ?case
  proof (cases "faults w (length (log w))")
    case (Some e)
    with Cons.prems show ?thesis by (auto simp: client_defs)
  next
    case None
    let ?w1 = "w\<lparr>log := log w @ [C_AliasRemove x alias], aliases := removeAll (x, alias) (aliases w)\<rparr>"
    from None Cons.prems have "removeLoop ?w1 xs alias = (r, w')"
      by (simp add: client_defs)
    from Cons.IH [OF this Cons.prems(2)] show ?thesis
      by (simp add: byAlias_other_removeAll [OF Cons.prems(2)])
  qed
qed

lemma addAlias_frame:
  "addAlias w alias newIndex = (r, w') \<Longrightarrow> b \<noteq> alias \<Longrightarrow>
     filter (\<lambda>(i, a). a = b) (aliases w') = filter (\<lambda>(i, a). a = b) (aliases w)"
  by (auto simp: addAlias_def client_defs byAlias_other_removeAll split: option.splits)

lemma UpdateAlias_frame:
  assumes "UpdateAlias w alias newIndex = (r, w')" and "b \<noteq> alias"
  shows "IndicesByAlias w' b = IndicesByAlias w b"
proof -
  let ?w1 = "w\<lparr>log := log w @ [C_IndexExists newIndex]\<rparr>"
  let ?w2 = "?w1\<lparr>log := log ?w1 @ [C_Aliases alias]\<rparr>"
  have "filter (\<lambda>(i, a). a = b) (aliases w') = filter (\<lambda>(i, a). a = b) (aliases w)"
  proof (cases "faults w (length (log w)) = None \<and> newIndex \<in> set (indices w)")
    case False
    with assms show ?thesis
      by (auto simp: UpdateAlias_def client_defs split: option.splits)
  next
    case True
    have "snd (Aliases alias ?w1) = ?w2"
      by (simp add: client_defs split: option.splits)
    then obtain ar where ar: "Aliases alias ?w1 = (ar, ?w2)"
      by (cases "Aliases alias ?w1") auto
    show ?thesis
    proof (cases ar)
      case (Inl e)
      show ?thesis
      proof (cases "IsNotFound e")
        case nf: False
        with assms True ar Inl show ?thesis
          by (auto simp: UpdateAlias_def IndexExists_def issue_def)
      next
        case nf: True
        with assms True ar Inl have "addAlias ?w2 alias newIndex = (r, w')"
          by (auto simp: UpdateAlias_def IndexExists_def issue_def)
        from addAlias_frame [OF this assms(2)] show ?thesis by simp
      qed
    next
      case (Inr xs)
      obtain r3 w3 where rl: "removeLoop ?w2 xs alias = (r3, w3)" by (cases "removeLoop ?w2 xs alias")
      from removeLoop_frame [OF rl assms(2)]
      have f3: "filter (\<lambda>(i, a). a = b) (aliases w3) = filter (\<lambda>(i, a). a = b) (aliases w)" by simp
      show ?thesis
      proof (cases r3)
        case (Some e)
        with assms True ar Inr rl have "w' = w3"
          by (auto simp: UpdateAlias_def IndexExists_def issue_def)
        with f3 show ?thesis by simp
      next
        case None
        with assms True ar Inr rl have "addAlias w3 alias newIndex = (r, w')"
          by (auto simp: UpdateAlias_def IndexExists_def issue_def)
        from addAlias_frame [OF this assms(2)] f3 show ?thesis by simp
      qed
    qed
  qed
  then show ?thesis by (simp add: IndicesByAlias_def)
qed

text \<open>
  C9. When the destination index does not exist and the existence check itself does not
  fail, \<open>UpdateAlias\<close> returns nil and the cluster is as before: the existence check
  is the only call it has issued.
\<close>

theorem UpdateAlias_missing_index:
  assumes "newIndex \<notin> set (indices w)" and "faults w (length (log w)) = None"
  shows "UpdateAlias w alias newIndex = (None, w\<lparr>log := log w @ [C_IndexExists newIndex]\<rparr>)"
  using assms by (simp add: UpdateAlias_def IndexExists_def issue_def)

theorem UpdateAlias_missing_index_witness:
  "''twitter-9'' \<notin> set (indices ex_cluster) \<and> faults ex_cluster (length (log ex_cluster)) = None \<and>
   fst (UpdateAlias ex_cluster ''twitter'' ''twitter-9'') = None \<and>
   aliases (snd (UpdateAlias ex_cluster ''twitter'' ''twitter-9'')) = aliases ex_cluster \<and>
   log (snd (UpdateAlias ex_cluster ''twitter'' ''twitter-9'')) = [C_IndexExists ''twitter-9'']"
proof -
  have h1: "''twitter-9'' \<notin> set (indices ex_cluster)" by (simp add: ex_cluster_def)
  have h2: "faults ex_cluster (length (log ex_cluster)) = None" by (simp add: ex_cluster_def)
  have "log ex_cluster = []" by (simp add: ex_cluster_def)
  with UpdateAlias_missing_index [OF h1 h2, of "''twitter''"] h1 h2 show ?thesis by simp
qed

text \<open>
  C2. The claim fails on the code: the alias is on two indices, the destination index
  does not exist, and \<open>UpdateAlias\<close> returns nil (since \<open>errors.Wrapf\<close> of a nil
  error is nil) with both indices still under the alias.
\<close>

theorem UpdateAlias_nil_with_two_indices:
  "fst (UpdateAlias ex_cluster ''twitter'' ''twitter-9'') = None \<and>
   IndicesByAlias (snd (UpdateAlias ex_cluster ''twitter'' ''twitter-9'')) ''twitter'' =
     [''twitter-4'', ''twitter-5'']"
  by (simp add: UpdateAlias_def IndexExists_def issue_def IndicesByAlias_def ex_cluster_def)

theorem UpdateAlias_nil_with_two_indices_witness:
  "fst (UpdateAlias ex_cluster ''twitter'' ''twitter-9'') = None \<and>
   length (IndicesByAlias (snd (UpdateAlias ex_cluster ''twitter'' ''twitter-9'')) ''twitter'') = 2"
  using UpdateAlias_nil_with_two_indices by simp

section \<open>Reindex and swap: proofs\<close>

lemma reindexLoop_run:
  "reindexLoop w xs newIndex remoteSrc ve = (r, w') \<Longrightarrow>
     \<exists>n \<le> length xs.
       w' = w\<lparr>log := log w @ map (\<lambda>i. C_Reindex i remoteSrc newIndex (if ve then ''external'' else ''internal'')) (take n xs)\<rparr> \<and>
       (r = None \<longrightarrow> n = length xs)"
proof (induction xs arbitrary: w)
  case Nil
  then show ?case by simp
next
  case (Cons x xs)
  let ?c = "C_Reindex x remoteSrc newIndex (if ve then ''external'' else ''internal'')"
  let ?w1 = "w\<lparr>log := log w @ [?c]\<rparr>"
  show ?case
  proof (cases "faults w (length (log w))")
    case (Some e)
    with Cons.prems show ?thesis
      by (intro exI [of _ 1]) (auto simp: client_defs Let_def)
  next
    case None
    from None Cons.prems have "reindexLoop ?w1 xs newIndex remoteSrc ve = (r, w')"
      by (simp add: client_defs Let_def)
    from Cons.IH [OF this] obtain n where "n \<le> length xs"
      "w' = ?w1\<lparr>log := log ?w1 @ map (\<lambda>i. C_Reindex i remoteSrc newIndex (if ve then ''external'' else ''internal'')) (take n xs)\<rparr>"
      "r = None \<longrightarrow> n = length xs"
      by blast
    then show ?thesis
      by (intro exI [of _ "Suc n"]) auto
  qed
qed

lemma restoreSettings_run:
  assumes "restoreSettings w alias newIndex = (r, w')"
  shows "\<exists>cs. w' = w\<lparr>log := log w @ C_IndexGetTemplate alias # cs\<rparr> \<and>
           set cs \<subseteq> range (C_IndexPutSettings newIndex) \<and>
           (r = Returns None \<longrightarrow> cs \<noteq> [])"
proof -
  let ?w1 = "w\<lparr>log := log w @ [C_IndexGetTemplate alias]\<rparr>"
  have "snd (IndexGetTemplate alias w) = ?w1"
    by (simp add: client_defs split: option.splits)
  then obtain tr where tr: "IndexGetTemplate alias w = (tr, ?w1)"
    by (cases "IndexGetTemplate alias w") auto
  show ?thesis
  proof (cases tr)
    case (Inl e)
    with assms tr show ?thesis
      by (intro exI [of _ "[]"]) (auto simp: restoreSettings_def)
  next
    case (Inr tmpls)
    show ?thesis
    proof (cases "templateSetting tmpls alias ''refresh_interval''")
      case None
      with assms tr Inr show ?thesis
        by (intro exI [of _ "[]"]) (auto simp: restoreSettings_def)
    next
      case s: (Some seconds)
      show ?thesis
      proof (cases "templateSetting tmpls alias ''number_of_replicas''")
        case None
        with assms tr Inr s show ?thesis
          by (intro exI [of _ "[]"]) (auto simp: restoreSettings_def)
      next
        case (Some replicas)
        with assms tr Inr s show ?thesis
          by (intro exI [of _ "[C_IndexPutSettings newIndex (resetRefreshInterval seconds replicas)]"])
             (auto simp: restoreSettings_def IndexPutSettings_def issue_def split: option.splits)
      qed
    qed
  qed
qed

lemma restoreAndSwap_run:
  assumes "restoreAndSwap w alias newIndex nua bulk = (r, w')"
  shows "\<exists>cs. log w' = log w @ cs \<and> indices w' = indices w \<and> faults w' = faults w \<and>
           set cs \<subseteq> swapCalls alias newIndex \<and>
           (nua \<and> bulk \<longrightarrow> cs = []) \<and>
           (\<not> (nua \<and> bulk) \<longrightarrow> cs \<noteq> [] \<and> hd cs = C_IndexGetTemplate alias) \<and>
           (r = Returns None \<and> \<not> (nua \<and> bulk) \<longrightarrow> (\<exists>b. C_IndexPutSettings newIndex b \<in> set cs)) \<and>
           (r = Returns None \<and> \<not> nua \<longrightarrow>
              C_IndexExists newIndex \<in> set cs \<and>
              (newIndex \<in> set (indices w) \<longrightarrow> C_AliasAdd newIndex alias \<in> set cs))"
proof (cases "nua \<and> bulk")
  case True
  with assms show ?thesis
    by (intro exI [of _ "[]"]) (auto simp: restoreAndSwap_def)
next
  case False
  obtain r1 w1 where rs: "restoreSettings w alias newIndex = (r1, w1)"
    by (cases "restoreSettings w alias newIndex")
  from restoreSettings_run [OF rs] obtain cs1 where cs1:
    "w1 = w\<lparr>log := log w @ C_IndexGetTemplate alias # cs1\<rparr>"
    "set cs1 \<subseteq> range (C_IndexPutSettings newIndex)" "r1 = Returns None \<longrightarrow> cs1 \<noteq> []"
    by blast
  show ?thesis
  proof (cases "r1 = Returns None \<and> \<not> nua")
    case stop: False
    with assms False rs have "r = r1" "w' = w1"
      by (auto simp: restoreAndSwap_def split: outcome.splits option.splits)
    with cs1 stop False show ?thesis
      by (intro exI [of _ "C_IndexGetTemplate alias # cs1"])
         (cases cs1; auto simp: swapCalls_def)
  next
    case go: True
    obtain r2 where ua: "UpdateAlias w1 alias newIndex = (r2, w')" and r: "r = Returns r2"
      using assms False rs go by (auto simp: restoreAndSwap_def split: prod.splits)
    from UpdateAlias_calls [OF ua] obtain cs2 where cs2:
      "log w' = log w1 @ C_IndexExists newIndex # cs2"
      "set cs2 \<subseteq> {C_Aliases alias, C_AliasAdd newIndex alias} \<union> range (\<lambda>i. C_AliasRemove i alias)"
      "indices w' = indices w1" "faults w' = faults w1"
      "r2 = None \<and> newIndex \<in> set (indices w1) \<longrightarrow> C_AliasAdd newIndex alias \<in> set cs2"
      by blast
    from cs1 cs2 go r show ?thesis
      by (intro exI [of _ "C_IndexGetTemplate alias # cs1 @ C_IndexExists newIndex # cs2"])
         (cases cs1; auto simp: swapCalls_def)
  qed
qed

lemma Aliases_run:
  "Aliases alias w = (r, w') \<Longrightarrow> w' = w\<lparr>log := log w @ [C_Aliases alias]\<rparr>"
  by (auto simp: client_defs split: option.splits if_splits)

lemma swapCalls_no_Reindex: "C_Reindex s rm d v \<notin> swapCalls alias newIndex"
  by (auto simp: swapCalls_def)

text \<open>
  C3. When the alias lookup of \<open>ReindexOne\<close> fails and no remote source is given:
  a not-found failure is not returned; the run continues with exactly what follows the
  document copy (the settings restore and the alias swap, each unless suppressed), so it
  issues no reindex call, and unless the restore is suppressed its next call fetches the
  template. Any other failure of the lookup is returned, wrapped, and nothing else is done.
\<close>

theorem ReindexOne_alias_lookup_fails:
  assumes "Aliases alias w = (Inl err, w1)"
  shows "ReindexOne w alias newIndex [] versionExternal noUpdateAlias bulkIndexing =
           (if IsNotFound err then restoreAndSwap w1 alias newIndex noUpdateAlias bulkIndexing
            else (Returns (Some (Wrap err (''failed trying to lookup alias '' @ alias))), w1)) \<and>
         (IsNotFound err \<longrightarrow>
            (\<exists>cs. calls_since w (snd (ReindexOne w alias newIndex [] versionExternal noUpdateAlias bulkIndexing))
                    = C_Aliases alias # cs \<and>
                  (\<forall>s rm d v. C_Reindex s rm d v \<notin> set cs) \<and>
                  (\<not> (noUpdateAlias \<and> bulkIndexing) \<longrightarrow> cs \<noteq> [] \<and> hd cs = C_IndexGetTemplate alias)))"
proof -
  have run: "ReindexOne w alias newIndex [] versionExternal noUpdateAlias bulkIndexing =
           (if IsNotFound err then restoreAndSwap w1 alias newIndex noUpdateAlias bulkIndexing
            else (Returns (Some (Wrap err (''failed trying to lookup alias '' @ alias))), w1))"
    using assms by (simp add: ReindexOne_def)
  have w1: "w1 = w\<lparr>log := log w @ [C_Aliases alias]\<rparr>" using assms by (rule Aliases_run)
  { assume nf: "IsNotFound err"
    obtain r w' where rs: "restoreAndSwap w1 alias newIndex noUpdateAlias bulkIndexing = (r, w')"
      by (cases "restoreAndSwap w1 alias newIndex noUpdateAlias bulkIndexing")
    from restoreAndSwap_run [OF rs] obtain cs where cs: "log w' = log w1 @ cs"
      "set cs \<subseteq> swapCalls alias newIndex"
      "\<not> (noUpdateAlias \<and> bulkIndexing) \<longrightarrow> cs \<noteq> [] \<and> hd cs = C_IndexGetTemplate alias"
      by blast
    have nr: "\<forall>s rm d v. C_Reindex s rm d v \<notin> set cs"
      using cs(2) swapCalls_no_Reindex by blast
    have "calls_since w w' = C_Aliases alias # cs"
      using cs(1) w1 by (simp add: calls_since_def)
    with nr cs(3) rs nf run
    have "\<exists>cs. calls_since w (snd (ReindexOne w alias newIndex [] versionExternal noUpdateAlias bulkIndexing))
                    = C_Aliases alias # cs \<and>
                  (\<forall>s rm d v. C_Reindex s rm d v \<notin> set cs) \<and>
                  (\<not> (noUpdateAlias \<and> bulkIndexing) \<longrightarrow> cs \<noteq> [] \<and> hd cs = C_IndexGetTemplate alias)"
      by (intro exI [of _ cs]) simp }
  with run show ?thesis by blast
qed

lemmas run_defs = ReindexOne_def restoreAndSwap_def restoreSettings_def templateSetting_def
  UpdateAlias_def addAlias_def IndicesByAlias_def UpdateHostAllocation_def

theorem ReindexOne_alias_lookup_fails_witness:
  "Aliases ''twitter'' ex_fresh = (Inl (EsError 404), ex_fresh\<lparr>log := [C_Aliases ''twitter'']\<rparr>) \<and>
   IsNotFound (EsError 404) \<and>
   fst (ReindexOne ex_fresh ''twitter'' ''twitter-5'' [] False False False) = Returns None \<and>
   calls_since ex_fresh (snd (ReindexOne ex_fresh ''twitter'' ''twitter-5'' [] False False False)) =
     [C_Aliases ''twitter'', C_IndexGetTemplate ''twitter'',
      C_IndexPutSettings ''twitter-5'' (resetRefreshInterval (quote ''5s'') ''null''),
      C_IndexExists ''twitter-5'', C_Aliases ''twitter'', C_AliasAdd ''twitter-5'' ''twitter''] \<and>
   Aliases ''twitter'' ex_down = (Inl (EsError 503), ex_down\<lparr>log := [C_Aliases ''twitter'']\<rparr>) \<and>
   \<not> IsNotFound (EsError 503) \<and>
   fst (ReindexOne ex_down ''twitter'' ''twitter-5'' [] False False False) =
     Returns (Some (Wrap (EsError 503) ''failed trying to lookup alias twitter''))"
proof -
  have h1: "Aliases ''twitter'' ex_fresh = (Inl (EsError 404), ex_fresh\<lparr>log := [C_Aliases ''twitter'']\<rparr>)"
    by (simp add: ex_fresh_def ex_cluster_def client_defs IndicesByAlias_def)
  have h2: "Aliases ''twitter'' ex_down = (Inl (EsError 503), ex_down\<lparr>log := [C_Aliases ''twitter'']\<rparr>)"
    by (simp add: ex_down_def ex_cluster_def client_defs IndicesByAlias_def)
  have r: "restoreAndSwap (ex_fresh\<lparr>log := [C_Aliases ''twitter'']\<rparr>) ''twitter'' ''twitter-5'' False False =
     (Returns None,
      ex_fresh\<lparr>log := [C_Aliases ''twitter'', C_IndexGetTemplate ''twitter'',
          C_IndexPutSettings ''twitter-5'' (resetRefreshInterval (quote ''5s'') ''null''),
          C_IndexExists ''twitter-5'', C_Aliases ''twitter'', C_AliasAdd ''twitter-5'' ''twitter''],
        aliases := [(''twitter-5'', ''twitter'')]\<rparr>)"
    by (simp add: ex_fresh_def ex_cluster_def run_defs client_defs)
  have l: "log ex_fresh = []" by (simp add: ex_fresh_def ex_cluster_def)
  from ReindexOne_alias_lookup_fails [OF h1, of "''twitter-5''" False False False]
       ReindexOne_alias_lookup_fails [OF h2, of "''twitter-5''" False False False]
  show ?thesis
    by (simp add: h1 h2 r l calls_since_def)
qed

text \<open>
  What the settings restore sends when the template has an \<open>index\<close> settings object
  whose two values, where present, are strings; and when the restore is suppressed.
\<close>

lemma restoreSettings_from_template:
  assumes "templates w alias = Some body"
    and "map_of (decode_settings w body) ''index'' = Some (JObject ix)"
    and "map_of ix ''refresh_interval'' = None \<or> (\<exists>v. map_of ix ''refresh_interval'' = Some (JString v))"
    and "map_of ix ''number_of_replicas'' = None \<or> (\<exists>v. map_of ix ''number_of_replicas'' = Some (JString v))"
    and "faults w (length (log w)) = None" and "faults w (Suc (length (log w))) = None"
  shows "restoreSettings w alias newIndex =
     (Returns None,
      w\<lparr>log := log w @
         [C_IndexGetTemplate alias,
          C_IndexPutSettings newIndex
            (resetRefreshInterval
              (case map_of ix ''refresh_interval'' of Some (JString v) \<Rightarrow> quote v | _ \<Rightarrow> ''null'')
              (case map_of ix ''number_of_replicas'' of Some (JString v) \<Rightarrow> quote v | _ \<Rightarrow> ''null''))]\<rparr>)"
  using assms
  by (auto simp: restoreSettings_def templateSetting_def client_defs)

lemma restoreAndSwap_suppressed:
  "restoreAndSwap w alias newIndex True True = (Returns None, w)"
  by (simp add: restoreAndSwap_def)

lemma restoreAndSwap_restores:
  assumes "\<not> (noUpdateAlias \<and> bulkIndexing)"
  shows "restoreAndSwap w alias newIndex noUpdateAlias bulkIndexing =
     (case restoreSettings w alias newIndex of
        (Returns None, w') \<Rightarrow>
          (if \<not> noUpdateAlias then
             (case UpdateAlias w' alias newIndex of (err, w'') \<Rightarrow> (Returns err, w''))
           else (Returns None, w'))
      | (stop, w') \<Rightarrow> (stop, w'))"
  using assms by (auto simp: restoreAndSwap_def)

text \<open>
  C4. The claim fails on the code: the template of the alias has a settings object
  without an \<open>index\<close> entry (it declares neither value), and \<open>ReindexOne\<close>
  panics in the type assertion instead of sending \<open>null\<close> for both.
\<close>

theorem ReindexOne_panics_without_index_settings:
  "fst (ReindexOne ex_bare ''twitter'' ''twitter-3'' [] False False False) = Panics"
  by (simp add: ex_bare_def ex_cluster_def run_defs client_defs)

theorem ReindexOne_panics_without_index_settings_witness:
  "map_of (decode_settings ex_bare ''{}'') ''index'' = None \<and>
   fst (ReindexOne ex_bare ''twitter'' ''twitter-3'' [] False False False) \<noteq> Returns None"
  using ReindexOne_panics_without_index_settings by (simp add: ex_bare_def)

lemma ReindexOne_decompose:
  assumes "ReindexOne w alias newIndex remoteSrc ve nua bulk = (r, w')"
  shows "\<exists>cs0. (\<forall>c \<in> set cs0. \<exists>s. c = C_Reindex s remoteSrc newIndex (if ve then ''external'' else ''internal'')) \<and>
           (restoreAndSwap (w\<lparr>log := log w @ C_Aliases alias # cs0\<rparr>) alias newIndex nua bulk = (r, w') \<or>
            (\<exists>e. r = Returns (Some e)) \<and> w' = w\<lparr>log := log w @ C_Aliases alias # cs0\<rparr>)"
proof -
  let ?w1 = "w\<lparr>log := log w @ [C_Aliases alias]\<rparr>"
  obtain ar where ar: "Aliases alias w = (ar, ?w1)"
    using Aliases_run [of "alias" w] by (cases "Aliases alias w") auto
  show ?thesis
  proof (cases "\<exists>e. ar = Inl e \<and> \<not> IsNotFound e")
    case True
    with assms ar show ?thesis
      by (intro exI [of _ "[]"]) (auto simp: ReindexOne_def)
  next
    case ok: False
    define xs where "xs = (if remoteSrc = [] then (case ar of Inr found \<Rightarrow> found | Inl _ \<Rightarrow> []) else [alias])"
    define go where "go \<longleftrightarrow> (case ar of Inl _ \<Rightarrow> False | Inr _ \<Rightarrow> True) \<or> remoteSrc \<noteq> []"
    obtain r2 w2 where rl: "(if go then reindexLoop ?w1 xs newIndex remoteSrc ve else (None, ?w1)) = (r2, w2)"
      by (cases "if go then reindexLoop ?w1 xs newIndex remoteSrc ve else (None, ?w1)")
    have "\<exists>cs0. (\<forall>c \<in> set cs0. \<exists>s. c = C_Reindex s remoteSrc newIndex (if ve then ''external'' else ''internal'')) \<and>
            w2 = w\<lparr>log := log w @ C_Aliases alias # cs0\<rparr>"
    proof (cases go)
      case False
      with rl show ?thesis by (intro exI [of _ "[]"]) auto
    next
      case True
      with rl have "reindexLoop ?w1 xs newIndex remoteSrc ve = (r2, w2)" by simp
      from reindexLoop_run [OF this] obtain n where
        "w2 = ?w1\<lparr>log := log ?w1 @ map (\<lambda>i. C_Reindex i remoteSrc newIndex (if ve then ''external'' else ''internal'')) (take n xs)\<rparr>"
        by blast
      then show ?thesis
        by (intro exI [of _ "map (\<lambda>i. C_Reindex i remoteSrc newIndex (if ve then ''external'' else ''internal'')) (take n xs)"]) auto
    qed
    then obtain cs0 where cs0:
      "\<forall>c \<in> set cs0. \<exists>s. c = C_Reindex s remoteSrc newIndex (if ve then ''external'' else ''internal'')"
      "w2 = w\<lparr>log := log w @ C_Aliases alias # cs0\<rparr>" by blast
    have "ReindexOne w alias newIndex remoteSrc ve nua bulk =
            (case (if go then reindexLoop ?w1 xs newIndex remoteSrc ve else (None, ?w1)) of
               (Some err, w2) \<Rightarrow> (Returns (Some err), w2)
             | (None, w2) \<Rightarrow> restoreAndSwap w2 alias newIndex nua bulk)"
      using ar ok
      by (cases ar) (simp_all add: ReindexOne_def go_def xs_def Let_def del: reindexLoop.simps)
    then have "ReindexOne w alias newIndex remoteSrc ve nua bulk =
            (case r2 of Some err \<Rightarrow> (Returns (Some err), w2)
                      | None \<Rightarrow> restoreAndSwap w2 alias newIndex nua bulk)"
      unfolding rl by (cases r2) simp_all
    with assms cs0 show ?thesis
      by (intro exI [of _ cs0]) (cases r2; auto)
  qed
qed

lemma restoreAndSwap_swaps:
  assumes "restoreAndSwap w alias newIndex False bulk = (Returns None, w')"
  shows "\<exists>w1. UpdateAlias w1 alias newIndex = (None, w') \<and>
              aliases w1 = aliases w \<and> indices w1 = indices w \<and> faults w1 = faults w"
proof -
  obtain r1 w1 where rs: "restoreSettings w alias newIndex = (r1, w1)"
    by (cases "restoreSettings w alias newIndex")
  from restoreSettings_run [OF rs] obtain cs1 where
    "w1 = w\<lparr>log := log w @ C_IndexGetTemplate alias # cs1\<rparr>" by blast
  moreover from assms rs have "UpdateAlias w1 alias newIndex = (None, w')"
    by (auto simp: restoreAndSwap_def split: outcome.splits option.splits prod.splits)
  ultimately show ?thesis by (intro exI [of _ w1]) simp
qed

lemma ReindexOne_batch:
  assumes "ReindexOne w alias newIndex remoteSrc False False False = (r, w')"
  shows "\<exists>cs. log w' = log w @ cs \<and> indices w' = indices w \<and> faults w' = faults w \<and>
           (\<forall>s rm d v. C_Reindex s rm d v \<in> set cs \<longrightarrow> v = ''internal'') \<and>
           (r = Returns None \<longrightarrow>
              C_IndexGetTemplate alias \<in> set cs \<and> (\<exists>b. C_IndexPutSettings newIndex b \<in> set cs) \<and>
              C_IndexExists newIndex \<in> set cs \<and>
              (newIndex \<in> set (indices w) \<longrightarrow> C_AliasAdd newIndex alias \<in> set cs))"
proof -
  from ReindexOne_decompose [OF assms] obtain cs0 where cs0:
    "\<forall>c \<in> set cs0. \<exists>s. c = C_Reindex s remoteSrc newIndex ''internal''"
    "restoreAndSwap (w\<lparr>log := log w @ C_Aliases alias # cs0\<rparr>) alias newIndex False False = (r, w') \<or>
       (\<exists>e. r = Returns (Some e)) \<and> w' = w\<lparr>log := log w @ C_Aliases alias # cs0\<rparr>"
    by auto
  let ?w2 = "w\<lparr>log := log w @ C_Aliases alias # cs0\<rparr>"
  from cs0(2) show ?thesis
  proof
    assume "(\<exists>e. r = Returns (Some e)) \<and> w' = ?w2"
    with cs0(1) show ?thesis
      by (intro exI [of _ "C_Aliases alias # cs0"]) auto
  next
    assume rs: "restoreAndSwap ?w2 alias newIndex False False = (r, w')"
    from restoreAndSwap_run [OF rs] obtain cs where cs:
      "log w' = log ?w2 @ cs" "indices w' = indices ?w2" "faults w' = faults ?w2"
      "set cs \<subseteq> swapCalls alias newIndex"
      "cs \<noteq> [] \<and> hd cs = C_IndexGetTemplate alias"
      "r = Returns None \<longrightarrow> (\<exists>b. C_IndexPutSettings newIndex b \<in> set cs)"
      "r = Returns None \<longrightarrow> C_IndexExists newIndex \<in> set cs \<and>
              (newIndex \<in> set (indices ?w2) \<longrightarrow> C_AliasAdd newIndex alias \<in> set cs)"
      by auto
    from cs(5) have g: "C_IndexGetTemplate alias \<in> set cs" by (cases cs) auto
    have nr: "C_Reindex s rm d v \<notin> set cs" for s rm d v
      using cs(4) by (auto simp: swapCalls_def)
    from cs(1,2,3,6,7) g nr cs0(1) show ?thesis
      by (intro exI [of _ "C_Aliases alias # cs0 @ cs"]) auto
  qed
qed

lemma truthful_cong: "faults w' = faults w \<Longrightarrow> truthful w' = truthful w"
  by (simp add: truthful_def)

lemma IndicesByAlias_cong: "aliases w' = aliases w \<Longrightarrow> IndicesByAlias w' b = IndicesByAlias w b"
  by (simp add: IndicesByAlias_def)

lemma ReindexOne_batch_swaps:
  assumes "ReindexOne w alias newIndex remoteSrc False False False = (Returns None, w')"
  shows "(truthful w \<and> newIndex \<in> set (indices w) \<longrightarrow> IndicesByAlias w' alias = [newIndex]) \<and>
         (\<forall>b. b \<noteq> alias \<longrightarrow> IndicesByAlias w' b = IndicesByAlias w b)"
proof -
  from ReindexOne_decompose [OF assms] obtain cs0 where
    rs: "restoreAndSwap (w\<lparr>log := log w @ C_Aliases alias # cs0\<rparr>) alias newIndex False False = (Returns None, w')"
    by auto
  from restoreAndSwap_swaps [OF rs] obtain w1 where w1:
    "UpdateAlias w1 alias newIndex = (None, w')"
    "aliases w1 = aliases w" "indices w1 = indices w" "faults w1 = faults w"
    by auto
  have t: "truthful w1 = truthful w" using w1(4) by (rule truthful_cong)
  have i: "IndicesByAlias w1 b = IndicesByAlias w b" for b using w1(2) by (rule IndicesByAlias_cong)
  from UpdateAlias_swaps [OF w1(1)] UpdateAlias_frame [OF w1(1)] t i w1(3)
  show ?thesis by auto
qed

lemma ReindexAll_run:
  "ReindexAll w m remoteSrc = (r, w') \<Longrightarrow>
     \<exists>cs. log w' = log w @ cs \<and> indices w' = indices w \<and> faults w' = faults w \<and>
       (\<forall>s rm d v. C_Reindex s rm d v \<in> set cs \<longrightarrow> v = ''internal'') \<and>
       (r = Returns None \<longrightarrow>
          (\<forall>(al, newIndex) \<in> set m.
              C_IndexGetTemplate al \<in> set cs \<and> (\<exists>b. C_IndexPutSettings newIndex b \<in> set cs) \<and>
              C_IndexExists newIndex \<in> set cs \<and>
              (newIndex \<in> set (indices w) \<longrightarrow> C_AliasAdd newIndex al \<in> set cs)))"
proof (induction m arbitrary: w)
  case Nil
  then show ?case by (intro exI [of _ "[]"]) auto
next
  case (Cons p m)
  obtain al newIndex where p: "p = (al, newIndex)" by (cases p)
  obtain r1 w1 where r1: "ReindexOne w al newIndex remoteSrc False False False = (r1, w1)"
    by (cases "ReindexOne w al newIndex remoteSrc False False False")
  from ReindexOne_batch [OF r1] obtain cs1 where cs1:
    "log w1 = log w @ cs1" "indices w1 = indices w" "faults w1 = faults w"
    "\<forall>s rm d v. C_Reindex s rm d v \<in> set cs1 \<longrightarrow> v = ''internal''"
    "r1 = Returns None \<longrightarrow>
              C_IndexGetTemplate al \<in> set cs1 \<and> (\<exists>b. C_IndexPutSettings newIndex b \<in> set cs1) \<and>
              C_IndexExists newIndex \<in> set cs1 \<and>
              (newIndex \<in> set (indices w) \<longrightarrow> C_AliasAdd newIndex al \<in> set cs1)"
    by blast
  show ?case
  proof (cases "r1 = Returns None")
    case False
    with Cons.prems p r1 have "w' = w1" "r \<noteq> Returns None"
      by (auto split: outcome.splits option.splits)
    with cs1 show ?thesis by (intro exI [of _ cs1]) auto
  next
    case True
    with Cons.prems p r1 have "ReindexAll w1 m remoteSrc = (r, w')" by simp
    from Cons.IH [OF this] obtain cs2 where cs2:
      "log w' = log w1 @ cs2" "indices w' = indices w1" "faults w' = faults w1"
      "\<forall>s rm d v. C_Reindex s rm d v \<in> set cs2 \<longrightarrow> v = ''internal''"
      "r = Returns None \<longrightarrow>
          (\<forall>(al, newIndex) \<in> set m.
              C_IndexGetTemplate al \<in> set cs2 \<and> (\<exists>b. C_IndexPutSettings newIndex b \<in> set cs2) \<and>
              C_IndexExists newIndex \<in> set cs2 \<and>
              (newIndex \<in> set (indices w1) \<longrightarrow> C_AliasAdd newIndex al \<in> set cs2))"
      by blast
    from cs1 cs2 True p show ?thesis
      by (intro exI [of _ "cs1 @ cs2"]) (simp, blast)
  qed
qed

lemma ReindexAll_swaps:
  "ReindexAll w m remoteSrc = (Returns None, w') \<Longrightarrow> distinct (map fst m) \<Longrightarrow> truthful w \<Longrightarrow>
     (\<forall>(al, newIndex) \<in> set m. newIndex \<in> set (indices w) \<longrightarrow> IndicesByAlias w' al = [newIndex]) \<and>
     (\<forall>b. b \<notin> fst ` set m \<longrightarrow> IndicesByAlias w' b = IndicesByAlias w b)"
proof (induction m arbitrary: w)
  case Nil
  then show ?case by simp
next
  case (Cons p m)
  obtain al newIndex where p: "p = (al, newIndex)" by (cases p)
  obtain r1 w1 where r1: "ReindexOne w al newIndex remoteSrc False False False = (r1, w1)"
    by (cases "ReindexOne w al newIndex remoteSrc False False False")
  have ok: "r1 = Returns None"
  proof (cases r1)
    case (Returns e)
    with Cons.prems(1) p r1 show ?thesis by (cases e) auto
  qed (use Cons.prems(1) p r1 in auto)
  with Cons.prems(1) p r1 have rest: "ReindexAll w1 m remoteSrc = (Returns None, w')" by simp
  from ReindexOne_batch [OF r1] have same: "indices w1 = indices w" "faults w1 = faults w" by auto
  from ReindexOne_batch_swaps [OF r1 [unfolded ok]]
  have s1: "truthful w \<and> newIndex \<in> set (indices w) \<longrightarrow> IndicesByAlias w1 al = [newIndex]"
    and f1: "\<And>b. b \<noteq> al \<Longrightarrow> IndicesByAlias w1 b = IndicesByAlias w b" by blast+
  have t1: "truthful w1" using Cons.prems(3) truthful_cong [OF same(2)] by simp
  from Cons.prems(2) p have d: "distinct (map fst m)" and na: "al \<notin> fst ` set m" by auto
  from Cons.IH [OF rest d t1]
  have ih1: "\<forall>(a, n) \<in> set m. n \<in> set (indices w1) \<longrightarrow> IndicesByAlias w' a = [n]"
    and ih2: "\<And>b. b \<notin> fst ` set m \<Longrightarrow> IndicesByAlias w' b = IndicesByAlias w1 b" by blast+
  have here: "newIndex \<in> set (indices w) \<longrightarrow> IndicesByAlias w' al = [newIndex]"
    using s1 ih2 [OF na] Cons.prems(3) by simp
  have "\<forall>(a, n) \<in> set (p # m). n \<in> set (indices w) \<longrightarrow> IndicesByAlias w' a = [n]"
  proof (intro ballI)
    fix x assume x: "x \<in> set (p # m)"
    show "case x of (a, n) \<Rightarrow> n \<in> set (indices w) \<longrightarrow> IndicesByAlias w' a = [n]"
    proof (cases "x = p")
      case True
      with here p show ?thesis by simp
    next
      case False
      with x have "x \<in> set m" by simp
      with ih1 same(1) show ?thesis by (cases x) force
    qed
  qed
  moreover have "\<forall>b. b \<notin> fst ` set (p # m) \<longrightarrow> IndicesByAlias w' b = IndicesByAlias w b"
  proof (intro allI impI)
    fix b assume b: "b \<notin> fst ` set (p # m)"
    then have "b \<noteq> al" "b \<notin> fst ` set m" using p by auto
    with ih2 [of b] f1 [of b] show "IndicesByAlias w' b = IndicesByAlias w b" by simp
  qed
  ultimately show ?case by blast
qed

section \<open>Provisioner: proofs\<close>

declare digits.simps [simp del]
declare ReplaceAll.simps [simp del]

lemma of_char_digit: "d < 10 \<Longrightarrow> (of_char (digit d) :: nat) = 48 + d"
  by (simp add: digit_def)

lemma digit_0: "digit 0 = CHR ''0''"
proof -
  have "(of_char (digit 0) :: nat) = of_char CHR ''0''" by (simp add: digit_def)
  then show ?thesis by (simp only: of_char_eq_iff)
qed

lemma digit_inj: "a < 10 \<Longrightarrow> b < 10 \<Longrightarrow> digit a = digit b \<longleftrightarrow> a = b"
proof
  assume "a < 10" "b < 10" "digit a = digit b"
  then have "(of_char (digit a) :: nat) = of_char (digit b)" by simp
  with \<open>a < 10\<close> \<open>b < 10\<close> show "a = b" by (simp add: of_char_digit)
qed simp

lemma digit_not_colon: "d < 10 \<Longrightarrow> digit d \<noteq> CHR '':''"
proof
  assume "d < 10" "digit d = CHR '':''"
  then have "(of_char (digit d) :: nat) = of_char CHR '':''" by simp
  with \<open>d < 10\<close> show False by (simp add: of_char_digit)
qed

lemma digits_1: "n < 10 \<Longrightarrow> digits n = [digit n]"
  by (subst digits.simps) simp

lemma digits_2: "10 \<le> n \<Longrightarrow> n < 100 \<Longrightarrow> digits n = [digit (n div 10), digit (n mod 10)]"
  by (subst digits.simps) (simp add: digits_1)

lemma digits_3: "100 \<le> n \<Longrightarrow> n < 1000 \<Longrightarrow>
    digits n = [digit (n div 100), digit (n div 10 mod 10), digit (n mod 10)]"
  by (subst digits.simps) (simp add: digits_2 div_mult2_eq [symmetric])

lemma digits_4: "1000 \<le> n \<Longrightarrow> n < 10000 \<Longrightarrow>
    digits n = [digit (n div 1000), digit (n div 100 mod 10), digit (n div 10 mod 10), digit (n mod 10)]"
  by (subst digits.simps) (simp add: digits_3 div_mult2_eq [symmetric])

lemma appendInt_2:
  assumes "n < 100"
  shows "appendInt n 2 = [digit (n div 10), digit (n mod 10)]"
proof (cases "n < 10")
  case True
  then show ?thesis by (simp add: appendInt_def digits_1 digit_0)
next
  case False
  with assms show ?thesis by (simp add: appendInt_def digits_2)
qed

lemma replicate_small:
  "replicate (Suc 0) x = [x]" "replicate 2 x = [x, x]" "replicate 3 x = [x, x, x]"
  by (simp_all add: numeral_2_eq_2 numeral_3_eq_3)

lemma appendInt_4:
  assumes "n < 10000"
  shows "appendInt n 4 =
    [digit (n div 1000), digit (n div 100 mod 10), digit (n div 10 mod 10), digit (n mod 10)]"
proof -
  consider "n < 10" | "10 \<le> n" "n < 100" | "100 \<le> n" "n < 1000" | "1000 \<le> n"
    by linarith
  then show ?thesis
  proof cases
    case 1
    then have "digits n = [digit n]" by (rule digits_1)
    moreover have "n div 1000 = 0" "n div 100 mod 10 = 0" "n div 10 mod 10 = 0" "n mod 10 = n"
      using 1 by simp_all
    ultimately show ?thesis by (simp add: appendInt_def digit_0 replicate_small)
  next
    case 2
    then have "digits n = [digit (n div 10), digit (n mod 10)]" by (rule digits_2)
    moreover have "n div 1000 = 0" "n div 100 mod 10 = 0" "n div 10 mod 10 = n div 10"
      using 2 by simp_all
    ultimately show ?thesis by (simp add: appendInt_def digit_0 replicate_small)
  next
    case 3
    then have "digits n = [digit (n div 100), digit (n div 10 mod 10), digit (n mod 10)]"
      by (rule digits_3)
    moreover have "n div 1000 = 0" "n div 100 mod 10 = n div 100"
      using 3 by simp_all
    ultimately show ?thesis by (simp add: appendInt_def digit_0 replicate_small)
  next
    case 4
    with assms show ?thesis by (simp add: appendInt_def digits_4)
  qed
qed

lemma ReplaceAll_char:
  "ReplaceAll s [a] [b] = map (\<lambda>c. if c = a then b else c) s"
proof (induction s)
  case Nil
  then show ?case by (subst ReplaceAll.simps) simp
next
  case (Cons x xs)
  then show ?case by (subst ReplaceAll.simps) (simp add: HasPrefix_def)
qed

lemma digit_numerals:
  "digit 0 = CHR ''0''" "digit 1 = CHR ''1''" "digit 2 = CHR ''2''" "digit 3 = CHR ''3''"
  "digit 4 = CHR ''4''" "digit 5 = CHR ''5''" "digit 6 = CHR ''6''" "digit 7 = CHR ''7''"
  "digit 8 = CHR ''8''" "digit 9 = CHR ''9''"
proof -
  have *: "digit d = c" if "(of_char (digit d) :: nat) = of_char c" for d c
    using that by (simp only: of_char_eq_iff)
  show "digit 0 = CHR ''0''" "digit 1 = CHR ''1''" "digit 2 = CHR ''2''" "digit 3 = CHR ''3''"
    "digit 4 = CHR ''4''" "digit 5 = CHR ''5''" "digit 6 = CHR ''6''" "digit 7 = CHR ''7''"
    "digit 8 = CHR ''8''" "digit 9 = CHR ''9''"
    by (rule *, simp add: digit_def)+
qed

lemma digits_no_colon: "c \<in> set (digits n) \<Longrightarrow> c \<noteq> CHR '':''"
proof (induction n arbitrary: c rule: digits.induct)
  case (1 n)
  show ?case
  proof (cases "n < 10")
    case True
    with 1(2) show ?thesis by (auto simp: digits_1 digit_not_colon)
  next
    case False
    have "n mod 10 < 10" by simp
    then have "digit (n mod 10) \<noteq> CHR '':''" by (rule digit_not_colon)
    moreover from 1(2) False have "c \<in> set (digits (n div 10)) \<or> c = digit (n mod 10)"
      by (subst (asm) digits.simps) auto
    ultimately show ?thesis using 1(1) [OF False] by auto
  qed
qed

lemma appendInt_no_colon:
  "map (\<lambda>c. if c = CHR '':'' then CHR ''-'' else c) (appendInt n k) = appendInt n k"
proof -
  have "c \<in> set (appendInt n k) \<Longrightarrow> c \<noteq> CHR '':''" for c
    by (auto simp: appendInt_def dest: digits_no_colon)
  then show ?thesis by (simp add: map_idI)
qed

text \<open>The date suffix: the formatted time with its two colons replaced.\<close>

lemma dateSuffix_eq:
  "ReplaceAll (Format t) '':'' ''-'' =
     appendInt (year t) 4 @ ''-'' @ appendInt (month t) 2 @ ''-'' @ appendInt (day t) 2 @ ''-'' @
     appendInt (hour t) 2 @ ''-'' @ appendInt (minute t) 2 @ ''-'' @ appendInt (second t) 2"
  by (simp add: ReplaceAll_char Format_def appendInt_no_colon)

lemma two_digits:
  assumes "a < 100" and "b < 100" and "digit (a div 10) = digit (b div 10)" and "digit (a mod 10) = digit (b mod 10)"
  shows "a = b"
proof -
  have "a div 10 < 10" "b div 10 < 10" "a mod 10 < 10" "b mod 10 < 10" using assms(1,2) by simp_all
  with assms(3,4) have "a div 10 = b div 10" "a mod 10 = b mod 10" by (simp_all add: digit_inj)
  then show ?thesis by (metis div_mult_mod_eq)
qed

lemma div_mod_10_eq: "x div 10 = y div 10 \<Longrightarrow> x mod 10 = y mod 10 \<Longrightarrow> x = (y :: nat)"
  by (metis div_mult_mod_eq)

lemma four_digits:
  assumes "a < 10000" and "b < 10000"
    and "digit (a div 1000) = digit (b div 1000)" and "digit (a div 100 mod 10) = digit (b div 100 mod 10)"
    and "digit (a div 10 mod 10) = digit (b div 10 mod 10)" and "digit (a mod 10) = digit (b mod 10)"
  shows "a = b"
proof -
  have "a div 1000 < 10" "b div 1000 < 10" using assms(1,2) by simp_all
  with assms(3) have 1: "a div 1000 = b div 1000" by (simp add: digit_inj)
  have 2: "a div 100 mod 10 = b div 100 mod 10" using assms(4) by (simp add: digit_inj)
  have 3: "a div 10 mod 10 = b div 10 mod 10" using assms(5) by (simp add: digit_inj)
  have 4: "a mod 10 = b mod 10" using assms(6) by (simp add: digit_inj)
  have "a div 100 div 10 = a div 1000" "b div 100 div 10 = b div 1000"
    by (simp_all add: div_mult2_eq [symmetric])
  with 1 have "a div 100 div 10 = b div 100 div 10" by simp
  then have h: "a div 100 = b div 100" using 2 by (rule div_mod_10_eq)
  have "a div 10 div 10 = a div 100" "b div 10 div 10 = b div 100"
    by (simp_all add: div_mult2_eq [symmetric])
  with h have "a div 10 div 10 = b div 10 div 10" by simp
  then have "a div 10 = b div 10" using 3 by (rule div_mod_10_eq)
  then show ?thesis using 4 by (rule div_mod_10_eq)
qed

text \<open>Clock readings that differ give date suffixes that differ, whatever follows them.\<close>

lemma dateSuffix_inj:
  assumes "valid_time t1" and "valid_time t2"
    and "ReplaceAll (Format t1) '':'' ''-'' @ s1 = ReplaceAll (Format t2) '':'' ''-'' @ s2"
  shows "t1 = t2"
proof -
  have b1: "year t1 < 10000" "month t1 < 100" "day t1 < 100" "hour t1 < 100" "minute t1 < 100" "second t1 < 100"
    using assms(1) by (simp_all add: valid_time_def)
  have b2: "year t2 < 10000" "month t2 < 100" "day t2 < 100" "hour t2 < 100" "minute t2 < 100" "second t2 < 100"
    using assms(2) by (simp_all add: valid_time_def)
  from assms(3) have e:
    "digit (year t1 div 1000) = digit (year t2 div 1000)"
    "digit (year t1 div 100 mod 10) = digit (year t2 div 100 mod 10)"
    "digit (year t1 div 10 mod 10) = digit (year t2 div 10 mod 10)"
    "digit (year t1 mod 10) = digit (year t2 mod 10)"
    "digit (month t1 div 10) = digit (month t2 div 10)" "digit (month t1 mod 10) = digit (month t2 mod 10)"
    "digit (day t1 div 10) = digit (day t2 div 10)" "digit (day t1 mod 10) = digit (day t2 mod 10)"
    "digit (hour t1 div 10) = digit (hour t2 div 10)" "digit (hour t1 mod 10) = digit (hour t2 mod 10)"
    "digit (minute t1 div 10) = digit (minute t2 div 10)" "digit (minute t1 mod 10) = digit (minute t2 mod 10)"
    "digit (second t1 div 10) = digit (second t2 div 10)" "digit (second t1 mod 10) = digit (second t2 mod 10)"
    unfolding dateSuffix_eq appendInt_4 [OF b1(1)] appendInt_4 [OF b2(1)]
      appendInt_2 [OF b1(2)] appendInt_2 [OF b1(3)] appendInt_2 [OF b1(4)] appendInt_2 [OF b1(5)] appendInt_2 [OF b1(6)]
      appendInt_2 [OF b2(2)] appendInt_2 [OF b2(3)] appendInt_2 [OF b2(4)] appendInt_2 [OF b2(5)] appendInt_2 [OF b2(6)]
    by simp_all
  have "year t1 = year t2" using b1(1) b2(1) e(1-4) by (rule four_digits)
  moreover have "month t1 = month t2" using b1(2) b2(2) e(5,6) by (rule two_digits)
  moreover have "day t1 = day t2" using b1(3) b2(3) e(7,8) by (rule two_digits)
  moreover have "hour t1 = hour t2" using b1(4) b2(4) e(9,10) by (rule two_digits)
  moreover have "minute t1 = minute t2" using b1(5) b2(5) e(11,12) by (rule two_digits)
  moreover have "second t1 = second t2" using b1(6) b2(6) e(13,14) by (rule two_digits)
  ultimately show ?thesis by simp
qed

lemma newIndexName_of_eq:
  "newIndexName_of index t newIndexName extraSuffix =
     (if newIndexName \<noteq> [] then newIndexName
      else if extraSuffix \<noteq> [] then index @ ''-'' @ ReplaceAll (Format t) '':'' ''-'' @ ''-'' @ extraSuffix
      else index @ ''-'' @ ReplaceAll (Format t) '':'' ''-'')"
  by (simp add: newIndexName_of_def Let_def)

lemma newIndexName_of_distinct:
  assumes "valid_time t1" and "valid_time t2" and "t1 \<noteq> t2"
  shows "newIndexName_of index t1 [] x1 \<noteq> newIndexName_of index t2 [] x2"
proof
  assume "newIndexName_of index t1 [] x1 = newIndexName_of index t2 [] x2"
  then have "ReplaceAll (Format t1) '':'' ''-'' @ (if x1 \<noteq> [] then ''-'' @ x1 else []) =
             ReplaceAll (Format t2) '':'' ''-'' @ (if x2 \<noteq> [] then ''-'' @ x2 else [])"
    by (simp add: newIndexName_of_eq split: if_splits)
  with assms(1,2) have "t1 = t2" by (rule dateSuffix_inj)
  with assms(3) show False by simp
qed

text \<open>The run once the file is read, the template pushed and the existence check answered.\<close>

lemma UpdateTemplateAndCreateNewIndex_checked:
  assumes "files w filePath = Some bytes"
    and "faults w (length (log w)) = None" and "faults w (Suc (length (log w))) = None"
  shows "UpdateTemplateAndCreateNewIndex w filePath newIndexName bulk itn extraSuffix =
     (let index = TrimSuffix (snd (Split filePath)) ''.json'';
          name = newIndexName_of index (clock w (Suc (length (log w)))) newIndexName extraSuffix;
          w2 = w\<lparr>log := log w @ [C_IndexPutTemplate index itn bytes, C_IndexExists name],
                 templates := (templates w)(index \<mapsto> bytes)\<rparr>
      in case (if name \<notin> set (indices w) then CreateIndex name w2 else (Inr (), w2)) of
           (Inl err, w3) \<Rightarrow> (Inl (Wrap err (''failed creating index '' @ name)), w3)
         | (Inr _, w3) \<Rightarrow>
             (if bulk then
                (case IndexPutSettings name indexingSettings w3 of
                   (Inl err, w4) \<Rightarrow>
                     (Inl (Wrap err (''failed setting index refresh_interval/replica settings for index '' @ name)), w4)
                 | (Inr _, w4) \<Rightarrow> (Inr name, w4))
              else (Inr name, w3)))"
proof -
  define index where "index = TrimSuffix (snd (Split filePath)) ''.json''"
  define name where "name = newIndexName_of index (clock w (Suc (length (log w)))) newIndexName extraSuffix"
  let ?w1 = "w\<lparr>log := log w @ [C_IndexPutTemplate index itn bytes],
               templates := (templates w)(index \<mapsto> bytes)\<rparr>"
  let ?w2 = "w\<lparr>log := log w @ [C_IndexPutTemplate index itn bytes, C_IndexExists name],
               templates := (templates w)(index \<mapsto> bytes)\<rparr>"
  have put: "IndexPutTemplate index itn bytes w = (Inr (), ?w1)"
    using assms(2) by (simp add: client_defs)
  have now: "Now ?w1 = clock w (Suc (length (log w)))" by (simp add: Now_def)
  have ex: "IndexExists name ?w1 = (Inr (name \<in> set (indices w)), ?w2)"
    using assms(3) by (simp add: IndexExists_def issue_def)
  show ?thesis
    by (unfold UpdateTemplateAndCreateNewIndex_def ReadFile_def Let_def assms(1) option.case
          sum.case index_def [symmetric] put prod.case now name_def [symmetric] ex) simp
qed

text \<open>The calls of a run, and what a successful run leaves behind.\<close>

lemma UpdateTemplateAndCreateNewIndex_run:
  assumes "UpdateTemplateAndCreateNewIndex w filePath newIndexName bulk itn extraSuffix = (r, w')"
  shows "\<exists>cs. log w' = log w @ cs \<and> faults w' = faults w \<and> aliases w' = aliases w \<and>
           set cs \<subseteq> range (\<lambda>b. C_IndexPutTemplate (TrimSuffix (snd (Split filePath)) ''.json'') itn b) \<union>
                    {C_IndexExists (newIndexName_of (TrimSuffix (snd (Split filePath)) ''.json'')
                        (clock w (Suc (length (log w)))) newIndexName extraSuffix),
                     C_CreateIndex (newIndexName_of (TrimSuffix (snd (Split filePath)) ''.json'')
                        (clock w (Suc (length (log w)))) newIndexName extraSuffix),
                     C_IndexPutSettings (newIndexName_of (TrimSuffix (snd (Split filePath)) ''.json'')
                        (clock w (Suc (length (log w)))) newIndexName extraSuffix) indexingSettings} \<and>
           (C_CreateIndex (newIndexName_of (TrimSuffix (snd (Split filePath)) ''.json'')
                        (clock w (Suc (length (log w)))) newIndexName extraSuffix) \<in> set cs \<longrightarrow>
              newIndexName_of (TrimSuffix (snd (Split filePath)) ''.json'')
                        (clock w (Suc (length (log w)))) newIndexName extraSuffix \<notin> set (indices w) \<and>
              faults w (Suc (length (log w))) = None) \<and>
           (\<forall>n. r = Inr n \<longrightarrow>
              n = newIndexName_of (TrimSuffix (snd (Split filePath)) ''.json'')
                        (clock w (Suc (length (log w)))) newIndexName extraSuffix \<and>
              n \<in> set (indices w') \<and> set (indices w) \<subseteq> set (indices w') \<and>
              templates w' (TrimSuffix (snd (Split filePath)) ''.json'') = files w filePath \<and>
              files w filePath \<noteq> None)"
proof -
  define index where "index = TrimSuffix (snd (Split filePath)) ''.json''"
  define name where "name = newIndexName_of index (clock w (Suc (length (log w)))) newIndexName extraSuffix"
  show ?thesis
  proof (cases "files w filePath")
    case None
    with assms show ?thesis
      by (intro exI [of _ "[]"]) (auto simp: UpdateTemplateAndCreateNewIndex_def ReadFile_def)
  next
    case (Some bytes)
    let ?w1 = "w\<lparr>log := log w @ [C_IndexPutTemplate index itn bytes]\<rparr>"
    show ?thesis
    proof (cases "faults w (length (log w))")
      case e: (Some e)
      with assms Some show ?thesis
        by (intro exI [of _ "[C_IndexPutTemplate index itn bytes]"])
           (auto simp: UpdateTemplateAndCreateNewIndex_def ReadFile_def client_defs Let_def index_def)
    next
      case None
      let ?w1 = "w\<lparr>log := log w @ [C_IndexPutTemplate index itn bytes],
                   templates := (templates w)(index \<mapsto> bytes)\<rparr>"
      have put: "IndexPutTemplate index itn bytes w = (Inr (), ?w1)"
        using None by (simp add: client_defs)
      have now: "Now ?w1 = clock w (Suc (length (log w)))" by (simp add: Now_def)
      show ?thesis
      proof (cases "faults w (Suc (length (log w)))")
        case e: (Some e)
        with assms Some put now show ?thesis
          by (intro exI [of _ "[C_IndexPutTemplate index itn bytes, C_IndexExists name]"])
             (auto simp: UpdateTemplateAndCreateNewIndex_def ReadFile_def IndexExists_def issue_def
                Let_def index_def name_def)
      next
        case ok: None
        let ?w2 = "?w1\<lparr>log := log ?w1 @ [C_IndexExists name]\<rparr>"
        have ex: "IndexExists name ?w1 = (Inr (name \<in> set (indices w)), ?w2)"
          using ok by (simp add: IndexExists_def issue_def)
        have run: "UpdateTemplateAndCreateNewIndex w filePath newIndexName bulk itn extraSuffix =
              (case (if name \<notin> set (indices w) then CreateIndex name ?w2 else (Inr (), ?w2)) of
                 (Inl err, w3) \<Rightarrow> (Inl (Wrap err (''failed creating index '' @ name)), w3)
               | (Inr _, w3) \<Rightarrow>
                   (if bulk then
                      (case IndexPutSettings name indexingSettings w3 of
                         (Inl err, w4) \<Rightarrow>
                           (Inl (Wrap err (''failed setting index refresh_interval/replica settings for index '' @ name)), w4)
                       | (Inr _, w4) \<Rightarrow> (Inr name, w4))
                    else (Inr name, w3)))"
          by (unfold UpdateTemplateAndCreateNewIndex_def ReadFile_def Let_def Some option.case
                sum.case index_def [symmetric] put prod.case now name_def [symmetric] ex) simp
        let ?P = "\<lambda>cs. log w' = log w @ cs \<and> faults w' = faults w \<and> aliases w' = aliases w \<and>
           set cs \<subseteq> range (\<lambda>b. C_IndexPutTemplate index itn b) \<union>
                    {C_IndexExists name, C_CreateIndex name, C_IndexPutSettings name indexingSettings} \<and>
           (C_CreateIndex name \<in> set cs \<longrightarrow>
              name \<notin> set (indices w) \<and> faults w (Suc (length (log w))) = None) \<and>
           (\<forall>n. r = Inr n \<longrightarrow>
              n = name \<and> n \<in> set (indices w') \<and> set (indices w) \<subseteq> set (indices w') \<and>
              templates w' index = files w filePath \<and> files w filePath \<noteq> None)"
        have "\<exists>cs. ?P cs"
        proof (cases "name \<in> set (indices w)")
          case True
          show ?thesis
          proof (cases bulk)
            case False
            with assms run True show ?thesis
              by (intro exI [of _ "[C_IndexPutTemplate index itn bytes, C_IndexExists name]"])
                 (auto simp: Some)
          next
            case b: True
            with assms run True show ?thesis
              by (intro exI [of _ "[C_IndexPutTemplate index itn bytes, C_IndexExists name,
                      C_IndexPutSettings name indexingSettings]"])
                 (auto simp: client_defs Some split: option.splits)
          qed
        next
          case False
          show ?thesis
          proof (cases "faults w (Suc (Suc (length (log w))))")
            case e: (Some e)
            with assms run False ok show ?thesis
              by (intro exI [of _ "[C_IndexPutTemplate index itn bytes, C_IndexExists name, C_CreateIndex name]"])
                 (auto simp: client_defs Some)
          next
            case None
            show ?thesis
            proof (cases bulk)
              case b: False
              with assms run False ok None show ?thesis
                by (intro exI [of _ "[C_IndexPutTemplate index itn bytes, C_IndexExists name, C_CreateIndex name]"])
                   (auto simp: client_defs Some)
            next
              case b: True
              with assms run False ok None show ?thesis
                by (intro exI [of _ "[C_IndexPutTemplate index itn bytes, C_IndexExists name, C_CreateIndex name,
                      C_IndexPutSettings name indexingSettings]"])
                   (auto simp: client_defs Some split: option.splits)
            qed
          qed
        qed
        then show ?thesis unfolding index_def name_def .
      qed
    qed
  qed
qed

lemma ex_stamp:
  "ReplaceAll (Format ex_time) '':'' ''-'' = ''2020-03-07-09-05-59''"
  "ReplaceAll (Format (ex_time\<lparr>minute := 6, second := 0\<rparr>)) '':'' ''-'' = ''2020-03-07-09-06-00''"
  by (simp_all add: dateSuffix_eq ex_time_def appendInt_4 appendInt_2 digit_numerals)

lemma ex_valid: "valid_time ex_time" "valid_time (ex_time\<lparr>minute := 6, second := 0\<rparr>)"
  by (simp_all add: valid_time_def ex_time_def)

lemma ex_provision:
  "fst (UpdateTemplateAndCreateNewIndex ex_cluster ''templates/twitter.json'' [] False False ''blue'') =
     Inr ''twitter-2020-03-07-09-05-59-blue''"
  "fst (UpdateTemplateAndCreateNewIndex ex_later ''templates/twitter.json'' [] False False []) =
     Inr ''twitter-2020-03-07-09-06-00''"
  "fst (UpdateTemplateAndCreateNewIndex ex_cluster ''templates/twitter.json'' ''twitter-5'' True False ''blue'') =
     Inr ''twitter-5''"
proof -
  have f: "files ex_cluster ''templates/twitter.json'' = Some ''{}''"
       "files ex_later ''templates/twitter.json'' = Some ''{}''"
    by (simp_all add: ex_cluster_def ex_later_def)
  have z: "faults ex_cluster (length (log ex_cluster)) = None" "faults ex_cluster (Suc (length (log ex_cluster))) = None"
       "faults ex_later (length (log ex_later)) = None" "faults ex_later (Suc (length (log ex_later))) = None"
    by (simp_all add: ex_cluster_def ex_later_def)
  have c: "clock ex_cluster (Suc (length (log ex_cluster))) = ex_time"
       "clock ex_later (Suc (length (log ex_later))) = ex_time\<lparr>minute := 6, second := 0\<rparr>"
    by (simp_all add: ex_cluster_def ex_later_def)
  have i: "indices ex_cluster = [''twitter-3'', ''users-1'', ''twitter-1'', ''twitter-5'', ''twitter-2'', ''twitter-4'']"
       "indices ex_later = [''twitter-3'', ''users-1'', ''twitter-1'', ''twitter-5'', ''twitter-2'', ''twitter-4'']"
    by (simp_all add: ex_cluster_def ex_later_def)
  have g: "faults (ex_cluster\<lparr>log := l, templates := t\<rparr>) = (\<lambda>_. None)"
       "faults (ex_later\<lparr>log := l, templates := t\<rparr>) = (\<lambda>_. None)" for l t
    by (simp_all add: ex_cluster_def ex_later_def)
  show "fst (UpdateTemplateAndCreateNewIndex ex_cluster ''templates/twitter.json'' [] False False ''blue'') =
     Inr ''twitter-2020-03-07-09-05-59-blue''"
    by (simp add: UpdateTemplateAndCreateNewIndex_checked [OF f(1) z(1,2)] c ex_path newIndexName_of_eq ex_stamp i
          CreateIndex_def issue_def g Let_def)
  show "fst (UpdateTemplateAndCreateNewIndex ex_later ''templates/twitter.json'' [] False False []) =
     Inr ''twitter-2020-03-07-09-06-00''"
    by (simp add: UpdateTemplateAndCreateNewIndex_checked [OF f(2) z(3,4)] c ex_path newIndexName_of_eq ex_stamp i
          CreateIndex_def issue_def g Let_def)
  show "fst (UpdateTemplateAndCreateNewIndex ex_cluster ''templates/twitter.json'' ''twitter-5'' True False ''blue'') =
     Inr ''twitter-5''"
    by (simp add: UpdateTemplateAndCreateNewIndex_checked [OF f(1) z(1,2)] c ex_path newIndexName_of_eq i
          IndexPutSettings_def issue_def g Let_def)
qed

text \<open>
  A run that returns a name has read the file and, as its first call, pushed the file's
  content under the file's base name; it issued no other template call, and the template
  store differs from before in that one entry only.
\<close>

lemma UpdateTemplateAndCreateNewIndex_pushes:
  assumes "UpdateTemplateAndCreateNewIndex w filePath newIndexName bulk itn extraSuffix = (Inr name, w')"
  shows "\<exists>bytes cs. files w filePath = Some bytes \<and>
           log w' = log w @ C_IndexPutTemplate (TrimSuffix (snd (Split filePath)) ''.json'') itn bytes # cs \<and>
           (\<forall>n t b. C_IndexPutTemplate n t b \<notin> set cs) \<and>
           templates w' = (templates w)(TrimSuffix (snd (Split filePath)) ''.json'' \<mapsto> bytes)"
proof -
  obtain bytes where b: "files w filePath = Some bytes"
    using assms by (cases "files w filePath") (auto simp: UpdateTemplateAndCreateNewIndex_def ReadFile_def)
  have f0: "faults w (length (log w)) = None"
    using assms b
    by (cases "faults w (length (log w))")
       (auto simp: UpdateTemplateAndCreateNewIndex_def ReadFile_def IndexPutTemplate_def issue_def Let_def)
  have f1: "faults w (Suc (length (log w))) = None"
    using assms b f0
    by (cases "faults w (Suc (length (log w)))")
       (auto simp: UpdateTemplateAndCreateNewIndex_def ReadFile_def IndexPutTemplate_def
          IndexExists_def issue_def Let_def)
  from UpdateTemplateAndCreateNewIndex_checked [OF b f0 f1, of newIndexName bulk itn extraSuffix] assms
  have "log w' = log w @ C_IndexPutTemplate (TrimSuffix (snd (Split filePath)) ''.json'') itn bytes #
                   drop (Suc (length (log w))) (log w') \<and>
        (\<forall>n t b. C_IndexPutTemplate n t b \<notin> set (drop (Suc (length (log w))) (log w'))) \<and>
        templates w' = (templates w)(TrimSuffix (snd (Split filePath)) ''.json'' \<mapsto> bytes)"
    unfolding Let_def
    by (auto simp: client_defs split: if_splits option.splits)
  with b show ?thesis by blast
qed

text \<open>
  C5. The index name \<open>UpdateTemplateAndCreateNewIndex\<close> returns is the override
  when one is given (the extra suffix is then ignored); otherwise it is the file's base
  name, a hyphen, and the local time read after the template was pushed, written as
  year-month-day-hour-minute-second with hyphens only, followed by a hyphen and the
  extra suffix when one is given. The run's first call pushes the file's content as the
  template of the file's base name, it pushes no other template, and afterwards the
  template store holds that content under that name and is otherwise as before,
  whatever it held. A second run on the same file, without override, whose clock reading
  differs from the first one's, returns a different name, and again pushes its file
  content, in its first call, under the same template name.
\<close>

theorem UpdateTemplateAndCreateNewIndex_name:
  assumes "UpdateTemplateAndCreateNewIndex w filePath newIndexName bulkIndexing includeTypeName extraSuffix = (Inr name, w')"
  shows "let base = TrimSuffix (snd (Split filePath)) ''.json'';
             t = clock w (Suc (length (log w)));
             stamp = appendInt (year t) 4 @ ''-'' @ appendInt (month t) 2 @ ''-'' @ appendInt (day t) 2 @ ''-'' @
                     appendInt (hour t) 2 @ ''-'' @ appendInt (minute t) 2 @ ''-'' @ appendInt (second t) 2
         in name = (if newIndexName \<noteq> [] then newIndexName
                    else if extraSuffix \<noteq> [] then base @ ''-'' @ stamp @ ''-'' @ extraSuffix
                    else base @ ''-'' @ stamp) \<and>
            files w filePath \<noteq> None \<and> templates w' base = files w filePath \<and>
            (\<exists>bytes cs.
                files w filePath = Some bytes \<and>
                calls_since w w' = C_IndexPutTemplate base includeTypeName bytes # cs \<and>
                (\<forall>n i b. C_IndexPutTemplate n i b \<notin> set cs) \<and>
                templates w' = (templates w)(base \<mapsto> bytes)) \<and>
            (\<forall>w2 bulk2 type2 suffix2 name2 w2'.
                newIndexName = [] \<and>
                UpdateTemplateAndCreateNewIndex w2 filePath [] bulk2 type2 suffix2 = (Inr name2, w2') \<and>
                valid_time t \<and> valid_time (clock w2 (Suc (length (log w2)))) \<and>
                clock w2 (Suc (length (log w2))) \<noteq> t
                \<longrightarrow> name2 \<noteq> name \<and> templates w2' base = files w2 filePath \<and>
                    (\<exists>bytes2 cs2.
                        files w2 filePath = Some bytes2 \<and>
                        calls_since w2 w2' = C_IndexPutTemplate base type2 bytes2 # cs2 \<and>
                        (\<forall>n i b. C_IndexPutTemplate n i b \<notin> set cs2) \<and>
                        templates w2' = (templates w2)(base \<mapsto> bytes2)))"
proof -
  define base where "base = TrimSuffix (snd (Split filePath)) ''.json''"
  define t where "t = clock w (Suc (length (log w)))"
  from UpdateTemplateAndCreateNewIndex_run [OF assms]
  have n: "name = newIndexName_of base t newIndexName extraSuffix"
    and f: "files w filePath \<noteq> None" "templates w' base = files w filePath"
    unfolding base_def t_def by blast+
  have p: "\<exists>bytes cs.
      files w filePath = Some bytes \<and>
      calls_since w w' = C_IndexPutTemplate base includeTypeName bytes # cs \<and>
      (\<forall>n i b. C_IndexPutTemplate n i b \<notin> set cs) \<and>
      templates w' = (templates w)(base \<mapsto> bytes)"
    using UpdateTemplateAndCreateNewIndex_pushes [OF assms]
    unfolding base_def calls_since_def by fastforce
  have 2: "name2 \<noteq> name \<and> templates w2' base = files w2 filePath \<and>
      (\<exists>bytes2 cs2.
          files w2 filePath = Some bytes2 \<and>
          calls_since w2 w2' = C_IndexPutTemplate base type2 bytes2 # cs2 \<and>
          (\<forall>n i b. C_IndexPutTemplate n i b \<notin> set cs2) \<and>
          templates w2' = (templates w2)(base \<mapsto> bytes2))"
    if h: "newIndexName = []"
      "UpdateTemplateAndCreateNewIndex w2 filePath [] bulk2 type2 suffix2 = (Inr name2, w2')"
      "valid_time t" "valid_time (clock w2 (Suc (length (log w2))))"
      "clock w2 (Suc (length (log w2))) \<noteq> t"
    for w2 bulk2 type2 suffix2 name2 w2'
  proof -
    from UpdateTemplateAndCreateNewIndex_run [OF h(2)]
    have n2: "name2 = newIndexName_of base (clock w2 (Suc (length (log w2)))) [] suffix2"
      and f2: "templates w2' base = files w2 filePath"
      unfolding base_def by blast+
    have p2: "\<exists>bytes2 cs2.
        files w2 filePath = Some bytes2 \<and>
        calls_since w2 w2' = C_IndexPutTemplate base type2 bytes2 # cs2 \<and>
        (\<forall>n i b. C_IndexPutTemplate n i b \<notin> set cs2) \<and>
        templates w2' = (templates w2)(base \<mapsto> bytes2)"
      using UpdateTemplateAndCreateNewIndex_pushes [OF h(2)]
      unfolding base_def calls_since_def by fastforce
    from newIndexName_of_distinct [OF h(4,3,5)] n n2 h(1) have "name2 \<noteq> name" by simp
    with f2 p2 show ?thesis by blast
  qed
  from n f p 2 show ?thesis
    unfolding Let_def base_def [symmetric] t_def [symmetric]
    by (simp only: newIndexName_of_eq dateSuffix_eq) blast
qed

theorem UpdateTemplateAndCreateNewIndex_name_witness:
  "fst (UpdateTemplateAndCreateNewIndex ex_cluster ''templates/twitter.json'' [] False False ''blue'') =
     Inr ''twitter-2020-03-07-09-05-59-blue'' \<and>
   files ex_cluster ''templates/twitter.json'' = Some ''{}'' \<and>
   templates ex_cluster ''twitter'' \<noteq> Some ''{}'' \<and>
   hd (calls_since ex_cluster
        (snd (UpdateTemplateAndCreateNewIndex ex_cluster ''templates/twitter.json'' [] False False ''blue''))) =
     C_IndexPutTemplate ''twitter'' False ''{}'' \<and>
   templates (snd (UpdateTemplateAndCreateNewIndex ex_cluster ''templates/twitter.json'' [] False False ''blue''))
     ''twitter'' = Some ''{}'' \<and>
   fst (UpdateTemplateAndCreateNewIndex ex_later ''templates/twitter.json'' [] False False []) =
     Inr ''twitter-2020-03-07-09-06-00'' \<and>
   valid_time (clock ex_cluster (Suc (length (log ex_cluster)))) \<and>
   valid_time (clock ex_later (Suc (length (log ex_later)))) \<and>
   clock ex_later (Suc (length (log ex_later))) \<noteq> clock ex_cluster (Suc (length (log ex_cluster))) \<and>
   ''twitter-2020-03-07-09-06-00'' \<noteq> ''twitter-2020-03-07-09-05-59-blue'' \<and>
   hd (calls_since ex_later
        (snd (UpdateTemplateAndCreateNewIndex ex_later ''templates/twitter.json'' [] False False []))) =
     C_IndexPutTemplate ''twitter'' False ''{}'' \<and>
   templates (snd (UpdateTemplateAndCreateNewIndex ex_later ''templates/twitter.json'' [] False False []))
     ''twitter'' = Some ''{}''"
proof -
  let ?run1 = "UpdateTemplateAndCreateNewIndex ex_cluster ''templates/twitter.json'' [] False False ''blue''"
  let ?run2 = "UpdateTemplateAndCreateNewIndex ex_later ''templates/twitter.json'' [] False False []"
  let ?later = "ex_time\<lparr>minute := 6, second := 0\<rparr>"
  have h1: "?run1 = (Inr ''twitter-2020-03-07-09-05-59-blue'', snd ?run1)"
    using ex_provision(1) by (simp add: prod_eq_iff)
  have h2: "?run2 = (Inr ''twitter-2020-03-07-09-06-00'', snd ?run2)"
    using ex_provision(2) by (simp add: prod_eq_iff)
  have c: "clock ex_cluster (Suc (length (log ex_cluster))) = ex_time"
       "clock ex_later (Suc (length (log ex_later))) = ?later"
    by (simp_all add: ex_cluster_def ex_later_def)
  have ne: "?later \<noteq> ex_time" by (simp add: ex_time_def)
  have f: "files ex_cluster ''templates/twitter.json'' = Some ''{}''"
       "files ex_later ''templates/twitter.json'' = Some ''{}''"
    by (simp_all add: ex_cluster_def ex_later_def)
  have old: "templates ex_cluster ''twitter'' \<noteq> Some ''{}''"
    by (simp add: ex_cluster_def quote_def)
  note T = UpdateTemplateAndCreateNewIndex_name [OF h1, unfolded Let_def ex_path c]
  from T have t1: "templates (snd ?run1) ''twitter'' = files ex_cluster ''templates/twitter.json''"
    by blast
  from T obtain bytes cs where
    "files ex_cluster ''templates/twitter.json'' = Some bytes"
    "calls_since ex_cluster (snd ?run1) = C_IndexPutTemplate ''twitter'' False bytes # cs"
    by blast
  with f(1) have p1: "hd (calls_since ex_cluster (snd ?run1)) = C_IndexPutTemplate ''twitter'' False ''{}''"
    by simp
  from T have
    "?run2 = (Inr ''twitter-2020-03-07-09-06-00'', snd ?run2) \<and>
     valid_time ex_time \<and> valid_time (clock ex_later (Suc (length (log ex_later)))) \<and>
     clock ex_later (Suc (length (log ex_later))) \<noteq> ex_time
     \<longrightarrow> ''twitter-2020-03-07-09-06-00'' \<noteq> ''twitter-2020-03-07-09-05-59-blue'' \<and>
         templates (snd ?run2) ''twitter'' = files ex_later ''templates/twitter.json'' \<and>
         (\<exists>bytes2 cs2.
             files ex_later ''templates/twitter.json'' = Some bytes2 \<and>
             calls_since ex_later (snd ?run2) = C_IndexPutTemplate ''twitter'' False bytes2 # cs2 \<and>
             (\<forall>n i b. C_IndexPutTemplate n i b \<notin> set cs2) \<and>
             templates (snd ?run2) = (templates ex_later)(''twitter'' \<mapsto> bytes2))"
    by blast
  moreover have "?run2 = (Inr ''twitter-2020-03-07-09-06-00'', snd ?run2) \<and>
     valid_time ex_time \<and> valid_time (clock ex_later (Suc (length (log ex_later)))) \<and>
     clock ex_later (Suc (length (log ex_later))) \<noteq> ex_time"
    unfolding c(2) using h2 ex_valid ne by (intro conjI)
  ultimately have d: "''twitter-2020-03-07-09-06-00'' \<noteq> ''twitter-2020-03-07-09-05-59-blue''"
    and t2: "templates (snd ?run2) ''twitter'' = files ex_later ''templates/twitter.json''"
    and e2: "\<exists>bytes2 cs2.
             files ex_later ''templates/twitter.json'' = Some bytes2 \<and>
             calls_since ex_later (snd ?run2) = C_IndexPutTemplate ''twitter'' False bytes2 # cs2"
    by blast+
  from e2 f(2) have p2: "hd (calls_since ex_later (snd ?run2)) = C_IndexPutTemplate ''twitter'' False ''{}''"
    by auto
  from ex_provision(1,2) f old p1 t1 ex_valid ne d p2 t2 show ?thesis
    by (simp add: c)
qed

text \<open>
  C6. \<open>UpdateTemplateAndCreateNewIndex\<close> issues a create call only for the
  destination index, and only when the existence check completed and reported that index
  absent. When the file is read, the template is pushed, and the check reports that the
  index exists, no index is added and the run returns the index name: at once without
  bulk mode, and in bulk mode when the settings call succeeds.
\<close>

theorem UpdateTemplateAndCreateNewIndex_existing_index:
  assumes "UpdateTemplateAndCreateNewIndex w filePath newIndexName bulkIndexing includeTypeName extraSuffix = (r, w')"
  shows "let name = newIndexName_of (TrimSuffix (snd (Split filePath)) ''.json'')
                      (clock w (Suc (length (log w)))) newIndexName extraSuffix
         in (\<forall>n. C_CreateIndex n \<in> set (calls_since w w') \<longrightarrow>
                  n = name \<and> name \<notin> set (indices w) \<and> faults w (Suc (length (log w))) = None) \<and>
            (files w filePath \<noteq> None \<and> faults w (length (log w)) = None \<and>
             faults w (Suc (length (log w))) = None \<and> name \<in> set (indices w) \<longrightarrow>
               indices w' = indices w \<and>
               (\<not> bulkIndexing \<or> faults w (Suc (Suc (length (log w)))) = None \<longrightarrow> r = Inr name))"
proof -
  define name where "name = newIndexName_of (TrimSuffix (snd (Split filePath)) ''.json'')
                      (clock w (Suc (length (log w)))) newIndexName extraSuffix"
  from UpdateTemplateAndCreateNewIndex_run [OF assms] obtain cs where cs: "log w' = log w @ cs"
    "set cs \<subseteq> range (\<lambda>b. C_IndexPutTemplate (TrimSuffix (snd (Split filePath)) ''.json'') includeTypeName b) \<union>
        {C_IndexExists name, C_CreateIndex name, C_IndexPutSettings name indexingSettings}"
    "C_CreateIndex name \<in> set cs \<longrightarrow> name \<notin> set (indices w) \<and> faults w (Suc (length (log w))) = None"
    unfolding name_def by blast
  have c: "calls_since w w' = cs" using cs(1) by (simp add: calls_since_def)
  have 1: "\<forall>n. C_CreateIndex n \<in> set (calls_since w w') \<longrightarrow>
                  n = name \<and> name \<notin> set (indices w) \<and> faults w (Suc (length (log w))) = None"
    unfolding c using cs(2,3) by auto
  have 2: "indices w' = indices w \<and>
               (\<not> bulkIndexing \<or> faults w (Suc (Suc (length (log w)))) = None \<longrightarrow> r = Inr name)"
    if h: "files w filePath \<noteq> None" "faults w (length (log w)) = None"
       "faults w (Suc (length (log w))) = None" "name \<in> set (indices w)"
  proof -
    from h(1) obtain bytes where b: "files w filePath = Some bytes" by blast
    from UpdateTemplateAndCreateNewIndex_checked [OF b h(2,3), of newIndexName bulkIndexing includeTypeName extraSuffix] assms h(4)
    show ?thesis
      unfolding Let_def name_def [symmetric]
      by (auto simp: IndexPutSettings_def issue_def split: option.splits if_splits)
  qed
  from 1 2 show ?thesis unfolding Let_def name_def [symmetric] by blast
qed

theorem UpdateTemplateAndCreateNewIndex_existing_index_witness:
  "files ex_cluster ''templates/twitter.json'' \<noteq> None \<and> faults ex_cluster (length (log ex_cluster)) = None \<and>
   faults ex_cluster (Suc (length (log ex_cluster))) = None \<and>
   faults ex_cluster (Suc (Suc (length (log ex_cluster)))) = None \<and>
   ''twitter-5'' \<in> set (indices ex_cluster) \<and>
   fst (UpdateTemplateAndCreateNewIndex ex_cluster ''templates/twitter.json'' ''twitter-5'' True False ''blue'') =
     Inr ''twitter-5'' \<and>
   indices (snd (UpdateTemplateAndCreateNewIndex ex_cluster ''templates/twitter.json'' ''twitter-5'' True False ''blue'')) =
     indices ex_cluster \<and>
   C_CreateIndex ''twitter-5'' \<notin> set (calls_since ex_cluster
     (snd (UpdateTemplateAndCreateNewIndex ex_cluster ''templates/twitter.json'' ''twitter-5'' True False ''blue'')))"
proof -
  let ?run = "UpdateTemplateAndCreateNewIndex ex_cluster ''templates/twitter.json'' ''twitter-5'' True False ''blue''"
  have h: "?run = (fst ?run, snd ?run)" by simp
  have n: "newIndexName_of (TrimSuffix (snd (Split ''templates/twitter.json'')) ''.json'')
             (clock ex_cluster (Suc (length (log ex_cluster)))) ''twitter-5'' ''blue'' = ''twitter-5''"
    by (simp add: newIndexName_of_eq)
  have f: "files ex_cluster ''templates/twitter.json'' \<noteq> None" "faults ex_cluster (length (log ex_cluster)) = None"
    "faults ex_cluster (Suc (length (log ex_cluster))) = None"
    "faults ex_cluster (Suc (Suc (length (log ex_cluster)))) = None"
    "''twitter-5'' \<in> set (indices ex_cluster)"
    by (simp_all add: ex_cluster_def)
  from UpdateTemplateAndCreateNewIndex_existing_index [OF h] f
  show ?thesis unfolding Let_def n by blast
qed

section \<open>Command line: proofs\<close>

lemma provisionLoop_run:
  "provisionLoop w dir entries bulk itn extra acc = (r, w') \<Longrightarrow>
     \<exists>cs. log w' = log w @ cs \<and> (\<forall>s rm d v. C_Reindex s rm d v \<notin> set cs)"
proof (induction entries arbitrary: w acc)
  case Nil
  then show ?case by (intro exI [of _ "[]"]) simp
next
  case (Cons e entries)
  obtain name isDir where e: "e = (name, isDir)" by (cases e)
  show ?case
  proof (cases "HasPrefix name ''.'' \<or> isDir")
    case True
    with Cons.prems e have "provisionLoop w dir entries bulk itn extra acc = (r, w')" by auto
    from Cons.IH [OF this] show ?thesis .
  next
    case False
    obtain r1 w1 where u: "UpdateTemplateAndCreateNewIndex w (Join dir name) [] bulk itn extra = (r1, w1)"
      by (cases "UpdateTemplateAndCreateNewIndex w (Join dir name) [] bulk itn extra")
    from UpdateTemplateAndCreateNewIndex_run [OF u] obtain cs1 where cs1: "log w1 = log w @ cs1"
      "\<forall>s rm d v. C_Reindex s rm d v \<notin> set cs1" by (elim exE conjE) blast
    show ?thesis
    proof (cases r1)
      case (Inl err)
      with Cons.prems e False u have "w' = w1" by (auto simp: Let_def)
      with cs1 show ?thesis by blast
    next
      case (Inr newIndex)
      with Cons.prems e False u
      have "provisionLoop w1 dir entries bulk itn extra (mapAssign acc (TrimSuffix name ''.json'') newIndex) = (r, w')"
        by (auto simp: Let_def)
      from Cons.IH [OF this] obtain cs2 where "log w' = log w1 @ cs2"
        "\<forall>s rm d v. C_Reindex s rm d v \<notin> set cs2" by blast
      with cs1 show ?thesis by (intro exI [of _ "cs1 @ cs2"]) simp
    qed
  qed
qed

lemma cli_Reindex_directory_internal:
  assumes "args c = [dir]" and "\<not> HasSuffix dir ''.json''" and "cli_Reindex c w = (r, w')"
  shows "\<forall>s rm d v. C_Reindex s rm d v \<in> set (calls_since w w') \<longrightarrow> v = ''internal''"
proof -
  let ?w1 = "w\<lparr>log := log w @ [C_NewClient]\<rparr>"
  have n: "NArg c = 1" "First c = dir" using assms(1) by (simp_all add: NArg_def First_def)
  show ?thesis
  proof (cases "faults w (length (log w))")
    case (Some e)
    with assms n have "w' = ?w1" by (auto simp: cli_Reindex_def getClient_def issue_def)
    then show ?thesis by (simp add: calls_since_def)
  next
    case None
    then have g: "getClient c w = (Inr (), ?w1)" by (rule getClient_connects)
    show ?thesis
    proof (cases "IsSet (dest_index c)")
      case True
      with assms n g have "w' = ?w1" by (auto simp: cli_Reindex_def)
      then show ?thesis by (simp add: calls_since_def)
    next
      case False
      show ?thesis
      proof (cases "ReadDir ?w1 dir")
        case (Inl err)
        with assms n g False have "w' = ?w1"
          by (auto simp: cli_Reindex_def UpdateTemplatesAndCreateNewIndices_def)
        then show ?thesis by (simp add: calls_since_def)
      next
        case (Inr entries)
        obtain r2 w2 where p: "provisionLoop ?w1 dir entries (bulk_indexing c) (include_type_name c)
            (String (extra_suffix c)) [] = (r2, w2)"
          by (cases "provisionLoop ?w1 dir entries (bulk_indexing c) (include_type_name c) (String (extra_suffix c)) []")
        from provisionLoop_run [OF p] obtain cs2 where cs2: "log w2 = log ?w1 @ cs2"
          "\<forall>s rm d v. C_Reindex s rm d v \<notin> set cs2" by blast
        show ?thesis
        proof (cases r2)
          case e: (Inl err)
          with assms n g False Inr p have "w' = w2"
            by (auto simp: cli_Reindex_def UpdateTemplatesAndCreateNewIndices_def)
          with cs2 show ?thesis by (simp add: calls_since_def)
        next
          case m: (Inr m)
          with assms n g False Inr p have "ReindexAll w2 m [] = (r, w')"
            by (auto simp: cli_Reindex_def UpdateTemplatesAndCreateNewIndices_def)
          from ReindexAll_run [OF this] obtain cs3 where "log w' = log w2 @ cs3"
            "\<forall>s rm d v. C_Reindex s rm d v \<in> set cs3 \<longrightarrow> v = ''internal''" by blast
          with cs2 show ?thesis by (auto simp: calls_since_def)
        qed
      qed
    qed
  qed
qed

lemma cli_Reindex_directory_flags:
  assumes "args c = [dir]" and "\<not> HasSuffix dir ''.json''"
  shows "cli_Reindex (c\<lparr>version_external := ve, no_update_alias := nua\<rparr>) w = cli_Reindex c w"
proof -
  obtain r1 w1 where g: "getClient c w = (r1, w1)" by (cases "getClient c w")
  then have g': "getClient (c\<lparr>version_external := ve, no_update_alias := nua\<rparr>) w = (r1, w1)"
    by (simp add: getClient_def)
  show ?thesis
    using assms by (cases r1) (simp_all add: cli_Reindex_def NArg_def First_def g g')
qed

text \<open>
  C7. For the \<open>reindex\<close> command with one argument that does not end
  in \<open>.json\<close> and the destination-index flag set: the client is created first; when
  that succeeds the unsupported combination is reported and the process exits with status
  1, no template, index, settings, alias or reindex call having been issued; when it
  fails, the connection error is returned instead and the combination is not reported.
\<close>

theorem cli_Reindex_dest_index_with_directory:
  assumes "args c = [dir]" and "\<not> HasSuffix dir ''.json''" and "IsSet (dest_index c)"
  shows "cli_Reindex c w =
     (case faults w (length (log w)) of
        None \<Rightarrow>
          (Exits 1 ''--dest-index not supported with multiple indexes, please only specify one index template .json.'',
           w\<lparr>log := log w @ [C_NewClient]\<rparr>)
      | Some err \<Rightarrow>
          (Returns (Some (Wrap err ''error connecting to ElasticSearch'')),
           w\<lparr>log := log w @ [C_NewClient]\<rparr>))"
  using assms
  by (simp add: cli_Reindex_def NArg_def First_def getClient_def issue_def split: option.splits)

theorem cli_Reindex_dest_index_with_directory_witness:
  "args ex_batch = [''templates''] \<and> \<not> HasSuffix ''templates'' ''.json'' \<and> IsSet (dest_index ex_batch) \<and>
   faults ex_cluster (length (log ex_cluster)) = None \<and>
   fst (cli_Reindex ex_batch ex_cluster) =
     Exits 1 ''--dest-index not supported with multiple indexes, please only specify one index template .json.'' \<and>
   log (snd (cli_Reindex ex_batch ex_cluster)) = [C_NewClient]"
proof -
  have h: "args ex_batch = [''templates'']" "\<not> HasSuffix ''templates'' ''.json''" "IsSet (dest_index ex_batch)"
    by (simp_all add: ex_batch_def HasSuffix_def IsSet_def)
  have f: "faults ex_cluster (length (log ex_cluster)) = None" "log ex_cluster = []"
    by (simp_all add: ex_cluster_def)
  from cli_Reindex_dest_index_with_directory [OF h, of ex_cluster] h f show ?thesis by simp
qed

text \<open>
  The claim as stated fails when the cluster is out of reach: the client is created
  before the flag is looked at, the command returns the connection error, and the
  combination of arguments is never reported.
\<close>

theorem cli_Reindex_dest_index_not_reported:
  "args ex_batch = [''templates''] \<and> \<not> HasSuffix ''templates'' ''.json'' \<and> IsSet (dest_index ex_batch) \<and>
   fst (cli_Reindex ex_batch ex_offline) =
     Returns (Some (Wrap (Failure ''no Elasticsearch node available'') ''error connecting to ElasticSearch'')) \<and>
   log (snd (cli_Reindex ex_batch ex_offline)) = [C_NewClient]"
  by (simp add: cli_Reindex_def NArg_def First_def getClient_def issue_def ex_batch_def ex_offline_def
        ex_cluster_def HasSuffix_def IsSet_def)

text \<open>
  C8. \<open>ReindexAll\<close> runs \<open>ReindexOne\<close> on each entry of the table with the three
  flags false. So, whatever the run's outcome, every reindex call it issues asks for the
  internal version type; and when it returns nil, for every entry the template was
  fetched and the settings of the new index were put (the restore), and the swap was
  entered: the existence of the new index was checked and, where that index exists, the
  alias was added to it. With truthful not-found answers and one entry per alias, each
  alias whose new index exists is then on that index alone. In directory mode the
  \<open>reindex\<close> command does not read the version-external and no-update-alias flags,
  and none of its reindex calls asks for the external version type.
\<close>

theorem ReindexAll_fixed_flags:
  assumes "ReindexAll w m remoteSrc = (r, w')"
  shows "(\<forall>s rm d v. C_Reindex s rm d v \<in> set (calls_since w w') \<longrightarrow> v = ''internal'') \<and>
         (r = Returns None \<longrightarrow>
            (\<forall>(al, newIndex) \<in> set m.
                C_IndexGetTemplate al \<in> set (calls_since w w') \<and>
                (\<exists>b. C_IndexPutSettings newIndex b \<in> set (calls_since w w')) \<and>
                C_IndexExists newIndex \<in> set (calls_since w w') \<and>
                (newIndex \<in> set (indices w) \<longrightarrow> C_AliasAdd newIndex al \<in> set (calls_since w w')))) \<and>
         (r = Returns None \<and> distinct (map fst m) \<and> truthful w \<longrightarrow>
            (\<forall>(al, newIndex) \<in> set m.
                newIndex \<in> set (indices w) \<longrightarrow> IndicesByAlias w' al = [newIndex])) \<and>
         (args c = [dir] \<and> \<not> HasSuffix dir ''.json'' \<longrightarrow>
            cli_Reindex (c\<lparr>version_external := ve, no_update_alias := nua\<rparr>) u = cli_Reindex c u \<and>
            (\<forall>s rm d v. C_Reindex s rm d v \<in> set (calls_since u (snd (cli_Reindex c u)))
                \<longrightarrow> v = ''internal''))"
proof -
  from ReindexAll_run [OF assms] obtain cs where cs: "log w' = log w @ cs"
    "\<forall>s rm d v. C_Reindex s rm d v \<in> set cs \<longrightarrow> v = ''internal''"
    "r = Returns None \<longrightarrow>
          (\<forall>(al, newIndex) \<in> set m.
              C_IndexGetTemplate al \<in> set cs \<and> (\<exists>b. C_IndexPutSettings newIndex b \<in> set cs) \<and>
              C_IndexExists newIndex \<in> set cs \<and>
              (newIndex \<in> set (indices w) \<longrightarrow> C_AliasAdd newIndex al \<in> set cs))"
    by blast
  have c: "calls_since w w' = cs" using cs(1) by (simp add: calls_since_def)
  have s: "r = Returns None \<and> distinct (map fst m) \<and> truthful w \<longrightarrow>
            (\<forall>(al, newIndex) \<in> set m.
                newIndex \<in> set (indices w) \<longrightarrow> IndicesByAlias w' al = [newIndex])"
    using ReindexAll_swaps [of w m remoteSrc w'] assms by blast
  have d: "cli_Reindex (c\<lparr>version_external := ve, no_update_alias := nua\<rparr>) u = cli_Reindex c u \<and>
            (\<forall>s rm d v. C_Reindex s rm d v \<in> set (calls_since u (snd (cli_Reindex c u)))
                \<longrightarrow> v = ''internal'')"
    if h: "args c = [dir]" "\<not> HasSuffix dir ''.json''"
  proof -
    have "cli_Reindex c u = (fst (cli_Reindex c u), snd (cli_Reindex c u))" by simp
    from cli_Reindex_directory_internal [OF h this] cli_Reindex_directory_flags [OF h]
    show ?thesis by blast
  qed
  from cs(2,3) s d show ?thesis unfolding c by blast
qed

lemma ex_ReindexAll:
  "fst (ReindexAll ex_cluster ex_table []) = Returns None"
  by (simp add: ex_table_def ex_cluster_def run_defs client_defs)

theorem ReindexAll_fixed_flags_witness:
  "fst (ReindexAll ex_cluster ex_table []) = Returns None \<and>
   distinct (map fst ex_table) \<and> truthful ex_cluster \<and>
   (''twitter'', ''twitter-5'') \<in> set ex_table \<and> ''twitter-5'' \<in> set (indices ex_cluster) \<and>
   C_IndexGetTemplate ''twitter'' \<in> set (calls_since ex_cluster (snd (ReindexAll ex_cluster ex_table []))) \<and>
   C_AliasAdd ''twitter-5'' ''twitter'' \<in> set (calls_since ex_cluster (snd (ReindexAll ex_cluster ex_table []))) \<and>
   IndicesByAlias (snd (ReindexAll ex_cluster ex_table [])) ''twitter'' = [''twitter-5''] \<and>
   args (ex_batch\<lparr>dest_index := None\<rparr>) = [''templates''] \<and> \<not> HasSuffix ''templates'' ''.json'' \<and>
   cli_Reindex (ex_batch\<lparr>dest_index := None, version_external := False, no_update_alias := True\<rparr>) ex_cluster =
     cli_Reindex (ex_batch\<lparr>dest_index := None\<rparr>) ex_cluster"
proof -
  have h1: "ReindexAll ex_cluster ex_table [] = (Returns None, snd (ReindexAll ex_cluster ex_table []))"
    using ex_ReindexAll by (simp add: prod_eq_iff)
  have h2: "distinct (map fst ex_table)" "(''twitter'', ''twitter-5'') \<in> set ex_table"
    by (simp_all add: ex_table_def)
  have h3: "truthful ex_cluster" by (simp add: truthful_def ex_cluster_def)
  have h4: "''twitter-5'' \<in> set (indices ex_cluster)" by (simp add: ex_cluster_def)
  have h5: "args (ex_batch\<lparr>dest_index := None\<rparr>) = [''templates'']" "\<not> HasSuffix ''templates'' ''.json''"
    by (simp_all add: ex_batch_def HasSuffix_def)
  let ?cs = "calls_since ex_cluster (snd (ReindexAll ex_cluster ex_table []))"
  note t = ReindexAll_fixed_flags [OF h1, where c = "ex_batch\<lparr>dest_index := None\<rparr>" and dir = "''templates''"
      and ve = False and nua = True and u = ex_cluster]
  from t have "\<forall>(al, newIndex) \<in> set ex_table.
      C_IndexGetTemplate al \<in> set ?cs \<and> (\<exists>b. C_IndexPutSettings newIndex b \<in> set ?cs) \<and>
      C_IndexExists newIndex \<in> set ?cs \<and>
      (newIndex \<in> set (indices ex_cluster) \<longrightarrow> C_AliasAdd newIndex al \<in> set ?cs)"
    by blast
  with h2(2) h4 have a: "C_IndexGetTemplate ''twitter'' \<in> set ?cs" "C_AliasAdd ''twitter-5'' ''twitter'' \<in> set ?cs"
    by blast+
  from t h2(1) h3 have "\<forall>(al, newIndex) \<in> set ex_table.
      newIndex \<in> set (indices ex_cluster) \<longrightarrow>
      IndicesByAlias (snd (ReindexAll ex_cluster ex_table [])) al = [newIndex]"
    by blast
  with h2(2) h4 have b: "IndicesByAlias (snd (ReindexAll ex_cluster ex_table [])) ''twitter'' = [''twitter-5'']"
    by blast
  from t h5 have c: "cli_Reindex (ex_batch\<lparr>dest_index := None, version_external := False, no_update_alias := True\<rparr>) ex_cluster =
     cli_Reindex (ex_batch\<lparr>dest_index := None\<rparr>) ex_cluster"
    by blast
  from ex_ReindexAll h2 h3 h4 h5 a b c show ?thesis by blast
qed

end
